theory Spec2Isabelle
  imports Main "HOL-Library.AList" "HOL-Library.Sublist" "HOL-Library.Char_ord"
    "HOL-Library.List_Lexorder"
begin

section \<open>Python strings\<close>

text \<open>
  A Python \<open>str\<close> is modelled as a \<^typ>\<open>string\<close>: each \<^typ>\<open>char\<close> stands for one code
  point in the range 0..255, so \<^const>\<open>length\<close> is Python's \<open>len\<close>. The string operations
  the three modules use are written out below with the behaviour the Python library
  documents for them.
\<close>

text \<open>\<open>s.startswith(p)\<close>.\<close>

definition startswith :: "string \<Rightarrow> string \<Rightarrow> bool" where
  "startswith s p = (take (length p) s = p)"

text \<open>\<open>s.rstrip(c)\<close> for a one-character argument: every trailing \<open>c\<close> is removed.\<close>

definition rstrip_char :: "char \<Rightarrow> string \<Rightarrow> string" where
  "rstrip_char c s = rev (dropWhile (\<lambda>x. x = c) (rev s))"

text \<open>
  \<open>s.split(c)\<close> for a one-character separator: the pieces between the separators,
  empty pieces included; a string without the separator is its own single piece.
\<close>

fun split_on :: "char \<Rightarrow> string \<Rightarrow> string list" where
  "split_on c [] = [[]]"
| "split_on c (x # xs) =
     (if x = c then [] # split_on c xs
      else (case split_on c xs of
              [] \<Rightarrow> [[x]]
            | y # ys \<Rightarrow> (x # y) # ys))"

text \<open>
  \<open>s.split(c, 1)\<close> unpacked into two names: the text before the first separator and
  everything after it. The source only evaluates it where \<open>c in s\<close> holds.
\<close>

definition split_first :: "char \<Rightarrow> string \<Rightarrow> string \<times> string" where
  "split_first c s = (takeWhile (\<lambda>x. x \<noteq> c) s, drop 1 (dropWhile (\<lambda>x. x \<noteq> c) s))"

text \<open>\<open>s.strip()\<close>: leading and trailing whitespace is removed. Within the code points
  0..255 Python's \<open>str.isspace\<close> (and the \<open>\s\<close> of \<open>re\<close> on a \<open>str\<close> pattern) holds of
  tab, line feed, vertical tab, form feed, carriage return, the separators 0x1C..0x1F,
  the space, NEL (0x85) and the no-break space (0xA0).\<close>

definition isspace :: "char \<Rightarrow> bool" where
  "isspace c = (c \<in> set [CHR 0x09, CHR 0x0A, CHR 0x0B, CHR 0x0C, CHR 0x0D, CHR 0x1C,
     CHR 0x1D, CHR 0x1E, CHR 0x1F, CHR 0x20, CHR 0x85, CHR 0xA0])"

definition strip :: "string \<Rightarrow> string" where
  "strip s = rev (dropWhile isspace (rev (dropWhile isspace s)))"

section \<open>The filesystem\<close>

text \<open>
  The filesystem is a tree: a node is a regular file with its text or a directory with
  its entries, kept in the order \<open>iterdir\<close> lists them; the first entry of a name is
  the one the name denotes. A path is the list of its components from the root, as
  \<open>pathlib\<close> keeps them. There are no symbolic links and no permissions, and the
  component \<open>..\<close> is a name like any other (no directory has an entry of that name).
\<close>

datatype node = File string | Dir "(string \<times> node) list"

type_synonym path = "string list"

fun lookup :: "node \<Rightarrow> path \<Rightarrow> node option" where
  "lookup n [] = Some n"
| "lookup (File s) (c # cs) = None"
| "lookup (Dir es) (c # cs) = (case map_of es c of None \<Rightarrow> None | Some n \<Rightarrow> lookup n cs)"

text \<open>What \<open>os.stat\<close> tells of a path: nothing, a file (with its text) or a directory.\<close>

datatype entry = IsFile string | IsDir

definition stat :: "node \<Rightarrow> path \<Rightarrow> entry option" where
  "stat fs p = (case lookup fs p of None \<Rightarrow> None | Some (File s) \<Rightarrow> Some (IsFile s)
                | Some (Dir es) \<Rightarrow> Some IsDir)"

text \<open>\<open>Path.exists()\<close> and \<open>Path.is_dir()\<close>.\<close>

definition path_exists :: "node \<Rightarrow> path \<Rightarrow> bool" where
  "path_exists fs p = (stat fs p \<noteq> None)"

definition is_dir :: "node \<Rightarrow> path \<Rightarrow> bool" where
  "is_dir fs p = (stat fs p = Some IsDir)"

text \<open>A regular file stands where the path needs a directory (\<open>ENOTDIR\<close>).\<close>

fun blocked :: "node \<Rightarrow> path \<Rightarrow> bool" where
  "blocked n [] = False"
| "blocked (File s) (c # cs) = True"
| "blocked (Dir es) (c # cs) = (case map_of es c of None \<Rightarrow> False | Some n \<Rightarrow> blocked n cs)"

text \<open>
  \<open>put p n fs\<close> places the node \<open>n\<close> at the path \<open>p\<close>, replacing what was there and
  creating the directories on the way that are missing; \<open>remove_entry p fs\<close> takes the
  entry at \<open>p\<close> away with everything below it. Neither can replace the root.
\<close>

fun put :: "path \<Rightarrow> node \<Rightarrow> node \<Rightarrow> node" where
  "put [] n fs = fs"
| "put [c] n (Dir es) = Dir (AList.update c n es)"
| "put (c # cs) n (Dir es) =
     Dir (AList.update c (put cs n (case map_of es c of None \<Rightarrow> Dir [] | Some m \<Rightarrow> m)) es)"
| "put (c # cs) n (File s) = File s"

fun remove_entry :: "path \<Rightarrow> node \<Rightarrow> node" where
  "remove_entry [] fs = fs"
| "remove_entry [c] (Dir es) = Dir (AList.delete c es)"
| "remove_entry (c # cs) (Dir es) = Dir (AList.map_entry c (remove_entry cs) es)"
| "remove_entry (c # cs) (File s) = File s"

text \<open>
  The exceptions the modules can meet. An operating-system error carries the path it
  is about; \<open>Error\<close> is \<open>shutil.Error\<close>; a failure to start the subprocess and the
  two exceptions of the interpreter carry their message.
\<close>

datatype exn =
    FileExistsError path
  | FileNotFoundError path
  | NotADirectoryError path
  | IsADirectoryError path
  | OSError path
  | Error string
  | AttributeError string
  | TypeError string

text \<open>\<open>str(path)\<close> of an absolute path and \<open>str(e)\<close> of an exception.\<close>

definition str_path :: "path \<Rightarrow> string" where
  "str_path p = (if p = [] then ''/'' else concat (map (\<lambda>c. CHR ''/'' # c) p))"

fun str_exn :: "exn \<Rightarrow> string" where
  "str_exn (FileExistsError p) = ''[Errno 17] File exists: '' @ [CHR 0x27] @ str_path p @ [CHR 0x27]"
| "str_exn (FileNotFoundError p) =
     ''[Errno 2] No such file or directory: '' @ [CHR 0x27] @ str_path p @ [CHR 0x27]"
| "str_exn (NotADirectoryError p) =
     ''[Errno 20] Not a directory: '' @ [CHR 0x27] @ str_path p @ [CHR 0x27]"
| "str_exn (IsADirectoryError p) =
     ''[Errno 21] Is a directory: '' @ [CHR 0x27] @ str_path p @ [CHR 0x27]"
| "str_exn (OSError p) = ''[Errno 16] Device or resource busy: '' @ [CHR 0x27] @ str_path p @ [CHR 0x27]"
| "str_exn (Error m) = m"
| "str_exn (AttributeError m) = m"
| "str_exn (TypeError m) = m"

text \<open>A call returns a value or raises.\<close>

datatype 'a outcome = Returned 'a | Raised exn

text \<open>
  \<open>base / s\<close> of \<open>pathlib\<close>: an absolute \<open>s\<close> replaces the base; otherwise the
  components of \<open>s\<close> are appended. Empty components and \<open>.\<close> are dropped.
\<close>

definition parts :: "string \<Rightarrow> path" where
  "parts s = filter (\<lambda>c. c \<noteq> [] \<and> c \<noteq> ''.'') (split_on (CHR ''/'') s)"

definition joinpath :: "path \<Rightarrow> string \<Rightarrow> path" where
  "joinpath base s = (if startswith s ''/'' then parts s else base @ parts s)"

text \<open>
  \<open>Path.mkdir(parents=True, exist_ok=True)\<close>: nothing happens when the directory is
  there; the missing directories are created otherwise; it raises when a regular file
  is in the way. An operation that changes the filesystem yields the exception it
  raised, if any, and the filesystem it left.
\<close>

definition mkdir_p :: "path \<Rightarrow> node \<Rightarrow> exn option \<times> node" where
  "mkdir_p p fs =
     (if blocked fs p then (Some (NotADirectoryError p), fs)
      else (case stat fs p of
              Some (IsFile s) \<Rightarrow> (Some (FileExistsError p), fs)
            | Some IsDir \<Rightarrow> (None, fs)
            | None \<Rightarrow> (None, put p (Dir []) fs)))"

text \<open>
  \<open>shutil.rmtree(p)\<close>: raises when nothing is at \<open>p\<close> or a regular file is; a
  directory goes with everything below it. (The root itself cannot go: its entries
  are removed and the final \<open>rmdir\<close> raises.)
\<close>

definition rmtree :: "path \<Rightarrow> node \<Rightarrow> exn option \<times> node" where
  "rmtree p fs =
     (case stat fs p of
        None \<Rightarrow> (Some (FileNotFoundError p), fs)
      | Some (IsFile s) \<Rightarrow> (Some (NotADirectoryError p), fs)
      | Some IsDir \<Rightarrow> (if p = [] then (Some (OSError p), Dir []) else (None, remove_entry p fs)))"

text \<open>
  \<open>shutil.move(src, dst)\<close>. A destination that is a directory receives the source
  under the source's own name, unless an entry of that name is there already. The
  move is an \<open>os.rename\<close>; where that fails because directories on the way to the
  destination are missing, a source directory is copied and removed instead (which
  creates them), while a source file is not moved. A directory is moved neither into
  itself nor onto a regular file, and nothing moves through a regular file.
\<close>

definition quoted :: "string \<Rightarrow> string" where
  "quoted s = CHR 0x27 # s @ [CHR 0x27]"

definition basename :: "path \<Rightarrow> string" where
  "basename p = (if p = [] then [] else last p)"

definition shutil_move :: "path \<Rightarrow> path \<Rightarrow> node \<Rightarrow> exn option \<times> node" where
  "shutil_move src dst fs =
     (let real_dst = (if is_dir fs dst then dst @ [basename src] else dst) in
      if is_dir fs dst \<and> src = dst then (None, fs)
      else if is_dir fs dst \<and> path_exists fs real_dst then
        (Some (Error (''Destination path '' @ quoted (str_path real_dst) @ '' already exists'')), fs)
      else (case lookup fs src of
              None \<Rightarrow> (Some (FileNotFoundError src), fs)
            | Some n \<Rightarrow>
                if src = real_dst then (None, fs)
                else if is_dir fs src \<and> prefix src real_dst then
                  (Some (Error (''Cannot move a directory '' @ quoted (str_path src)
                     @ '' into itself '' @ quoted (str_path dst) @ ''.'')), fs)
                else if blocked fs real_dst then (Some (NotADirectoryError real_dst), fs)
                else if path_exists fs real_dst \<and> is_dir fs src then
                  (Some (FileExistsError real_dst), fs)
                else if \<not> is_dir fs src \<and> \<not> is_dir fs (butlast real_dst) then
                  (Some (FileNotFoundError real_dst), fs)
                else (None, put real_dst n (remove_entry src fs))))"

section \<open>Installing and removing skills (marketplace.py)\<close>

text \<open>
  Lines 22-29 of \<open>install_skill\<close>: the reference is a URL when it starts with \<open>http\<close>
  (the skill name is the last piece of the URL with its trailing slashes removed), an
  \<open>owner/name\<close> shorthand when it holds a slash (the name is everything after the
  first slash), and invalid otherwise. The result is the pair of the repository URL
  and the skill name, or \<open>None\<close> where the source returns the invalid-reference error.
\<close>

definition install_ref :: "string \<Rightarrow> (string \<times> string) option" where
  "install_ref skill_ref =
     (if startswith skill_ref ''http'' then
        Some (skill_ref, last (split_on (CHR ''/'') (rstrip_char (CHR ''/'') skill_ref)))
      else if CHR ''/'' \<in> set skill_ref then
        (case split_first (CHR ''/'') skill_ref of
           (owner, skill_name) \<Rightarrow> Some (''https://github.com/'' @ owner @ ''/skills'', skill_name))
      else None)"

text \<open>Line 71 of \<open>remove_skill\<close>: the last piece of the reference.\<close>

definition remove_ref :: "string \<Rightarrow> string" where
  "remove_ref skill_ref =
     (if CHR ''/'' \<in> set skill_ref then last (split_on (CHR ''/'') skill_ref) else skill_ref)"

text \<open>
  \<open>remove_skill\<close> (lines 69-81). The result is what the call returns or raises and
  the filesystem it leaves.
\<close>

definition remove_skill :: "string \<Rightarrow> path \<Rightarrow> node \<Rightarrow> string outcome \<times> node" where
  "remove_skill skill_ref skills_dir fs =
     (let skill_name = remove_ref skill_ref;
          target_dir = joinpath skills_dir skill_name in
      if \<not> path_exists fs target_dir then
        (Returned (''Skill '' @ quoted skill_name @ '' is not installed.''), fs)
      else (case rmtree target_dir fs of
              (None, fs1) \<Rightarrow>
                (Returned (''Successfully removed skill '' @ quoted skill_name @ ''.''), fs1)
            | (Some e, fs1) \<Rightarrow> (Returned (''Error removing skill: '' @ str_exn e), fs1)))"

text \<open>
  \<open>subprocess.run\<close> is the environment's: given the command line and the filesystem it
  either cannot start the program (and raises) or runs it to completion, with a return
  code and the text of the error stream, and leaves a filesystem.
\<close>

datatype proc = Completed int string | NotStarted exn

type_synonym runner = "string list \<Rightarrow> node \<Rightarrow> proc \<times> node"

text \<open>
  Lines 56-64 of \<open>install_skill\<close>, with the handler of line 66 for what they raise: the
  checked-out skill is moved into place and the temporary clone is removed.
\<close>

definition place_skill :: "string \<Rightarrow> path \<Rightarrow> path \<Rightarrow> node \<Rightarrow> string \<times> node" where
  "place_skill skill_name temp_dir target_dir fs =
     (let skill_source = joinpath (joinpath temp_dir ''skills'') skill_name in
      if path_exists fs skill_source then
        (case shutil_move skill_source target_dir fs of
           (Some e, fs1) \<Rightarrow> (''Error installing skill: '' @ str_exn e, fs1)
         | (None, fs1) \<Rightarrow>
             (case rmtree temp_dir fs1 of
                (Some e, fs2) \<Rightarrow> (''Error installing skill: '' @ str_exn e, fs2)
              | (None, fs2) \<Rightarrow>
                  (''Successfully installed skill '' @ quoted skill_name @ ''.'', fs2)))
      else
        (case rmtree temp_dir fs of
           (Some e, fs1) \<Rightarrow> (''Error installing skill: '' @ str_exn e, fs1)
         | (None, fs1) \<Rightarrow>
             (''Error: Skill '' @ quoted skill_name @ '' not found in repository.'', fs1)))"

text \<open>
  Lines 37-67 of \<open>install_skill\<close>, the \<open>try\<close> block: the sparse clone, the sparse
  checkout (whose result the source does not look at) and the placement. The third
  component lists the command lines that were run.
\<close>

definition fetch_skill ::
  "runner \<Rightarrow> string \<Rightarrow> string \<Rightarrow> path \<Rightarrow> path \<Rightarrow> node \<Rightarrow> string \<times> node \<times> string list list" where
  "fetch_skill run repo_url skill_name skills_dir target_dir fs =
     (let temp_dir = joinpath skills_dir (''.tmp_'' @ skill_name);
          clone = [''git'', ''clone'', ''--depth'', ''1'', ''--filter=blob:none'', ''--sparse'',
                   repo_url, str_path temp_dir] in
      case run clone fs of
        (NotStarted e, fs1) \<Rightarrow> (''Error installing skill: '' @ str_exn e, fs1, [clone])
      | (Completed returncode stderr, fs1) \<Rightarrow>
          if returncode \<noteq> 0 then (''Error cloning repository: '' @ stderr, fs1, [clone])
          else
            (let sparse = [''git'', ''-C'', str_path temp_dir, ''sparse-checkout'', ''set'',
                           ''skills/'' @ skill_name] in
             case run sparse fs1 of
               (NotStarted e, fs2) \<Rightarrow>
                 (''Error installing skill: '' @ str_exn e, fs2, [clone, sparse])
             | (Completed returncode2 stderr2, fs2) \<Rightarrow>
                 (case place_skill skill_name temp_dir target_dir fs2 of
                    (msg, fs3) \<Rightarrow> (msg, fs3, [clone, sparse]))))"

text \<open>
  \<open>install_skill\<close> (lines 13-67). The \<open>mkdir\<close> of line 19 stands before the \<open>try\<close>, so
  what it raises leaves the function.
\<close>

definition install_skill ::
  "runner \<Rightarrow> string \<Rightarrow> path \<Rightarrow> node \<Rightarrow> string outcome \<times> node \<times> string list list" where
  "install_skill run skill_ref skills_dir fs =
     (case mkdir_p skills_dir fs of
        (Some e, fs0) \<Rightarrow> (Raised e, fs0, [])
      | (None, fs0) \<Rightarrow>
          (case install_ref skill_ref of
             None \<Rightarrow>
               (Returned (''Error: Invalid skill reference '' @ quoted skill_ref
                  @ ''. Use 'owner/skill-name' format.''), fs0, [])
           | Some (repo_url, skill_name) \<Rightarrow>
               (let target_dir = joinpath skills_dir skill_name in
                if path_exists fs0 target_dir then
                  (Returned (''Skill '' @ quoted skill_name
                     @ '' is already installed. Remove it first to reinstall.''), fs0, [])
                else
                  (case fetch_skill run repo_url skill_name skills_dir target_dir fs0 of
                     (msg, fs1, cmds) \<Rightarrow> (Returned msg, fs1, cmds)))))"

section \<open>Parsing skill descriptors (parser.py)\<close>

subsection \<open>The two regular expressions\<close>

text \<open>
  The frontmatter pattern is a sequence of single characters and starred character
  classes. \<open>re\<close> matches such a sequence by backtracking: a greedy star takes as many
  characters as it can and gives them back one by one while the rest of the pattern
  fails; a lazy star takes none and takes one more each time the rest fails.
  \<open>rx_match\<close> does the same and yields the text each item of the sequence consumed
  together with the unmatched rest of the input, for the first way of matching that
  \<open>re\<close> would find; \<open>re.match\<close> anchors the match at the start of the text.
\<close>

datatype rx = One "char \<Rightarrow> bool" | Greedy "char \<Rightarrow> bool" | Lazy "char \<Rightarrow> bool"

fun rx_match :: "rx list \<Rightarrow> string \<Rightarrow> (string list \<times> string) option" where
  "rx_match [] s = Some ([], s)"
| "rx_match (One p # rs) [] = None"
| "rx_match (One p # rs) (c # cs) =
     (if p c then
        (case rx_match rs cs of None \<Rightarrow> None | Some (gs, rest) \<Rightarrow> Some ([c] # gs, rest))
      else None)"
| "rx_match (Greedy p # rs) [] =
     (case rx_match rs [] of None \<Rightarrow> None | Some (gs, rest) \<Rightarrow> Some ([] # gs, rest))"
| "rx_match (Greedy p # rs) (c # cs) =
     (case (if p c then rx_match (Greedy p # rs) cs else None) of
        Some (g # gs, rest) \<Rightarrow> Some ((c # g) # gs, rest)
      | _ \<Rightarrow>
        (case rx_match rs (c # cs) of None \<Rightarrow> None | Some (gs, rest) \<Rightarrow> Some ([] # gs, rest)))"
| "rx_match (Lazy p # rs) [] =
     (case rx_match rs [] of None \<Rightarrow> None | Some (gs, rest) \<Rightarrow> Some ([] # gs, rest))"
| "rx_match (Lazy p # rs) (c # cs) =
     (case rx_match rs (c # cs) of
        Some (gs, rest) \<Rightarrow> Some ([] # gs, rest)
      | None \<Rightarrow>
        (case (if p c then rx_match (Lazy p # rs) cs else None) of
           Some (g # gs, rest) \<Rightarrow> Some ((c # g) # gs, rest)
         | _ \<Rightarrow> None))"

definition lit :: "string \<Rightarrow> rx list" where
  "lit s = map (\<lambda>c. One (\<lambda>x. x = c)) s"

text \<open>
  Line 26: \<open>^---\s*\n(.*?)\n---\s*\n\<close> with \<open>re.DOTALL\<close>, under which the dot matches
  every character. Group 1 is the sixth item of the sequence.
\<close>

definition frontmatter_re :: "rx list" where
  "frontmatter_re =
     lit ''---'' @ [Greedy isspace] @ lit ''\<newline>'' @ [Lazy (\<lambda>c. True)]
     @ lit ''\<newline>---'' @ [Greedy isspace] @ lit ''\<newline>''"

text \<open>
  \<open>frontmatter_match\<close> yields group 1 and the text from \<open>frontmatter_match.end()\<close> on.
\<close>

definition frontmatter_match :: "string \<Rightarrow> (string \<times> string) option" where
  "frontmatter_match content =
     (case rx_match frontmatter_re content of
        None \<Rightarrow> None
      | Some (gs, rest) \<Rightarrow> Some (gs ! 5, rest))"

text \<open>
  Line 43: \<open>^[a-z0-9]+(-[a-z0-9]+)*$\<close>. Whether \<open>re.match\<close> finds a match is whether the
  whole text is in the language of the pattern, where \<open>$\<close> also matches just before a
  line feed that ends the text. The flag tells that the character before was one of
  \<open>[a-z0-9]\<close>: only then may the text end, or a hyphen or the final line feed follow.
\<close>

definition lower_or_digit :: "char \<Rightarrow> bool" where
  "lower_or_digit c = (c \<in> set ''abcdefghijklmnopqrstuvwxyz0123456789'')"

fun name_match :: "bool \<Rightarrow> string \<Rightarrow> bool" where
  "name_match seen [] = seen"
| "name_match seen (c # cs) =
     (if lower_or_digit c then name_match True cs
      else if c = CHR ''-'' then seen \<and> name_match False cs
      else if c = CHR 0x0A then seen \<and> cs = []
      else False)"

definition name_re :: "string \<Rightarrow> bool" where
  "name_re s = name_match False s"

subsection \<open>What the YAML loader returns\<close>

text \<open>
  \<open>yaml.safe_load\<close> is the library's and a parameter of the model: it raises
  \<open>yaml.YAMLError\<close> or returns a value. The values are the null, booleans, integers,
  strings, sequences and mappings (floats, timestamps, binary data and sets are left
  out). A mapping is the list of its items; its keys are distinct.
\<close>

datatype yaml =
    YNull
  | YBool bool
  | YInt int
  | YStr string
  | YSeq "yaml list"
  | YMap "(yaml \<times> yaml) list"

datatype load_result = Loaded yaml | YAMLError

type_synonym loader = "string \<Rightarrow> load_result"

text \<open>Python's truth value, \<open>len\<close> (which raises on a value without a length) and type name.\<close>

fun truthy :: "yaml \<Rightarrow> bool" where
  "truthy YNull = False"
| "truthy (YBool b) = b"
| "truthy (YInt i) = (i \<noteq> 0)"
| "truthy (YStr s) = (s \<noteq> [])"
| "truthy (YSeq xs) = (xs \<noteq> [])"
| "truthy (YMap m) = (m \<noteq> [])"

fun py_len :: "yaml \<Rightarrow> nat option" where
  "py_len (YStr s) = Some (length s)"
| "py_len (YSeq xs) = Some (length xs)"
| "py_len (YMap m) = Some (length m)"
| "py_len YNull = None"
| "py_len (YBool b) = None"
| "py_len (YInt i) = None"

fun type_name :: "yaml \<Rightarrow> string" where
  "type_name YNull = ''NoneType''"
| "type_name (YBool b) = ''bool''"
| "type_name (YInt i) = ''int''"
| "type_name (YStr s) = ''str''"
| "type_name (YSeq xs) = ''list''"
| "type_name (YMap m) = ''dict''"

text \<open>\<open>d.get(key)\<close> for a string key: Python's \<open>None\<close> where the key is missing.\<close>

definition dict_get :: "(yaml \<times> yaml) list \<Rightarrow> string \<Rightarrow> yaml" where
  "dict_get m k = (case map_of m (YStr k) of None \<Rightarrow> YNull | Some v \<Rightarrow> v)"

text \<open>
  A loader for concrete descriptors: it returns the values of the table for the texts
  of the table and rejects every other text.
\<close>

definition load_table :: "(string \<times> yaml) list \<Rightarrow> loader" where
  "load_table t s = (case map_of t s of None \<Rightarrow> YAMLError | Some v \<Rightarrow> Loaded v)"

subsection \<open>The parser\<close>

text \<open>
  The dataclass \<open>Skill\<close>. The name of a record the parser builds is a string (the
  pattern of line 43 was matched against it); every other field of the frontmatter is
  passed on as loaded, \<open>None\<close> where it is missing.
\<close>

record skill =
  name :: string
  description :: yaml
  body :: string
  allowed_tools :: yaml
  license :: yaml
  compatibility :: yaml
  metadata :: yaml

text \<open>
  Lines 26-60 of \<open>parse_skill\<close>, on the text of the file. Only \<open>yaml.YAMLError\<close> is
  caught (line 32): \<open>frontmatter.get\<close> raises on a value that is not a mapping,
  \<open>re.match\<close> on a name that is not a string, and \<open>len\<close> on a description without a
  length, which is only asked for when the name is not too long.
\<close>

definition parse_content :: "loader \<Rightarrow> string \<Rightarrow> skill option outcome" where
  "parse_content safe_load content =
     (case frontmatter_match content of
        None \<Rightarrow> Returned None
      | Some (group1, rest) \<Rightarrow>
          (case safe_load group1 of
             YAMLError \<Rightarrow> Returned None
           | Loaded (YMap frontmatter) \<Rightarrow>
               (let nm = dict_get frontmatter ''name'';
                    descr = dict_get frontmatter ''description'' in
                if \<not> truthy nm then Returned None
                else if \<not> truthy descr then Returned None
                else (case nm of
                        YStr n \<Rightarrow>
                          if \<not> name_re n then Returned None
                          else if length n > 64 then Returned None
                          else (case py_len descr of
                                  None \<Rightarrow>
                                    Raised (TypeError (''object of type '' @ quoted (type_name descr)
                                      @ '' has no len()''))
                                | Some l \<Rightarrow>
                                    if l > 1024 then Returned None
                                    else Returned (Some \<lparr>name = n, description = descr,
                                      body = strip rest,
                                      allowed_tools = dict_get frontmatter ''allowed-tools'',
                                      license = dict_get frontmatter ''license'',
                                      compatibility = dict_get frontmatter ''compatibility'',
                                      metadata = dict_get frontmatter ''metadata''\<rparr>))
                      | other \<Rightarrow>
                          Raised (TypeError (''expected string or bytes-like object, got ''
                            @ quoted (type_name other)))))
           | Loaded other \<Rightarrow>
               Raised (AttributeError (quoted (type_name other)
                 @ '' object has no attribute '' @ quoted ''get''))))"

text \<open>
  \<open>parse_skill\<close> (lines 18-60): no record where nothing is at the path; \<open>read_text\<close>
  raises on a directory.
\<close>

definition parse_skill :: "loader \<Rightarrow> node \<Rightarrow> path \<Rightarrow> skill option outcome" where
  "parse_skill safe_load fs skill_path =
     (case stat fs skill_path of
        None \<Rightarrow> Returned None
      | Some IsDir \<Rightarrow> Raised (IsADirectoryError skill_path)
      | Some (IsFile content) \<Rightarrow> parse_content safe_load content)"

text \<open>
  The loop of \<open>list_skills\<close> (lines 69-74) over the entries of the directory: what a
  call of \<open>parse_skill\<close> raises ends the loop and leaves \<open>list_skills\<close>.
\<close>

fun collect_skills :: "loader \<Rightarrow> node \<Rightarrow> path \<Rightarrow> (string \<times> node) list \<Rightarrow> skill list outcome" where
  "collect_skills safe_load fs skills_dir [] = Returned []"
| "collect_skills safe_load fs skills_dir ((nm, n) # es) =
     (if is_dir fs (skills_dir @ [nm]) \<and> \<not> startswith nm ''.'' then
        (case parse_skill safe_load fs (skills_dir @ [nm, ''SKILL.md'']) of
           Raised e \<Rightarrow> Raised e
         | Returned None \<Rightarrow> collect_skills safe_load fs skills_dir es
         | Returned (Some sk) \<Rightarrow>
             (case collect_skills safe_load fs skills_dir es of
                Raised e \<Rightarrow> Raised e
              | Returned sks \<Rightarrow> Returned (sk # sks)))
      else collect_skills safe_load fs skills_dir es)"

text \<open>
  \<open>list_skills\<close> (lines 62-76). \<open>iterdir\<close> lists every name of the directory once and
  raises on a regular file; \<open>sorted\<close> is stable and compares the names as strings.
\<close>

definition list_skills :: "loader \<Rightarrow> node \<Rightarrow> path \<Rightarrow> skill list outcome" where
  "list_skills safe_load fs skills_dir =
     (case lookup fs skills_dir of
        None \<Rightarrow> Returned []
      | Some (File s) \<Rightarrow> Raised (NotADirectoryError skills_dir)
      | Some (Dir es) \<Rightarrow>
          (case collect_skills safe_load fs skills_dir (AList.clearjunk es) of
             Raised e \<Rightarrow> Raised e
           | Returned sks \<Rightarrow> Returned (sort_key name sks)))"

section \<open>The active skill (state.py)\<close>

text \<open>
  \<open>json.dumps\<close> and \<open>json.loads\<close> are the library's and parameters of the model; a
  text \<open>json.loads\<close> rejects (\<open>JSONDecodeError\<close>) loads as \<open>None\<close>. Python's \<open>None\<close> is
  the value \<open>JNull\<close>. \<open>STATE_FILE\<close> is a path fixed by where the module is installed, a
  parameter too.
\<close>

datatype json =
    JNull
  | JBool bool
  | JNum int
  | JStr string
  | JArr "json list"
  | JObj "(string \<times> json) list"

text \<open>
  \<open>Path.write_text\<close>: the file is created or its text replaced; the call raises on a
  directory and where the directory of the file is not there. \<open>Path.unlink\<close>: the
  file is removed; the call raises on a directory and where nothing is at the path.
\<close>

definition write_text :: "path \<Rightarrow> string \<Rightarrow> node \<Rightarrow> exn option \<times> node" where
  "write_text p text fs =
     (if blocked fs p then (Some (NotADirectoryError p), fs)
      else if is_dir fs p then (Some (IsADirectoryError p), fs)
      else if \<not> is_dir fs (butlast p) then (Some (FileNotFoundError p), fs)
      else (None, put p (File text) fs))"

definition unlink :: "path \<Rightarrow> node \<Rightarrow> exn option \<times> node" where
  "unlink p fs =
     (case stat fs p of
        None \<Rightarrow> (Some (FileNotFoundError p), fs)
      | Some IsDir \<Rightarrow> (Some (IsADirectoryError p), fs)
      | Some (IsFile s) \<Rightarrow> (None, remove_entry p fs))"

text \<open>
  \<open>get_active_skill\<close> (lines 9-18): \<open>None\<close> where the file is missing, where reading it
  raises an \<open>IOError\<close> (it is a directory) and where its text is not JSON.
\<close>

definition get_active_skill :: "(string \<Rightarrow> json option) \<Rightarrow> path \<Rightarrow> node \<Rightarrow> json" where
  "get_active_skill loads state_file fs =
     (case stat fs state_file of
        None \<Rightarrow> JNull
      | Some IsDir \<Rightarrow> JNull
      | Some (IsFile text) \<Rightarrow> (case loads text of None \<Rightarrow> JNull | Some data \<Rightarrow> data))"

text \<open>\<open>set_active_skill\<close> (lines 20-26) and \<open>clear_active_skill\<close> (lines 28-31).\<close>

definition set_active_skill ::
  "(json \<Rightarrow> string) \<Rightarrow> path \<Rightarrow> string \<Rightarrow> string option \<Rightarrow> node \<Rightarrow> exn option \<times> node" where
  "set_active_skill dumps state_file nm tools fs =
     (let data = JObj [(''name'', JStr nm),
                       (''allowed_tools'', (case tools of None \<Rightarrow> JNull | Some t \<Rightarrow> JStr t))] in
      write_text state_file (dumps data) fs)"

definition clear_active_skill :: "path \<Rightarrow> node \<Rightarrow> exn option \<times> node" where
  "clear_active_skill state_file fs =
     (if path_exists fs state_file then unlink state_file fs else (None, fs))"

section \<open>Properties\<close>

lemma split_on_nonempty: "split_on c s \<noteq> []"
  by (induction s) (auto split: list.splits)

lemma split_on_no_sep: "c \<notin> set s \<Longrightarrow> split_on c s = [s]"
  by (induction s) auto

lemma split_on_append:
  "split_on c (s @ c # t) = split_on c s @ split_on c t"
proof (induction s)
  case Nil
  show ?case by simp
next
  case (Cons x s)
  obtain y ys where "split_on c s = y # ys"
    using split_on_nonempty [of c s] by (cases "split_on c s") auto
  with Cons show ?case by simp
qed

lemma last_split_on_append:
  "c \<notin> set t \<Longrightarrow> last (split_on c (s @ c # t)) = t"
  by (simp add: split_on_append split_on_nonempty split_on_no_sep)

subsection \<open>Resolving a reference and removing a skill\<close>

lemma stat_remove_entry:
  "p \<noteq> [] \<Longrightarrow> stat (remove_entry p fs) q = (if prefix p q then None else stat fs q)"
proof (induction p fs arbitrary: q rule: remove_entry.induct)
  case (1 fs)
  then show ?case by simp
next
  case (2 c es)
  then show ?case
    by (cases q) (auto simp: stat_def delete_conv' split: option.splits node.splits)
next
  case (3 c v va es)
  then show ?case
    by (cases q) (auto simp: stat_def map_of_map_entry split: option.splits node.splits)
next
  case (4 c cs s)
  then show ?case
    by (cases q) (auto simp: stat_def split: option.splits node.splits)
qed

lemma rstrip_char_id: "s \<noteq> [] \<Longrightarrow> last s \<noteq> c \<Longrightarrow> rstrip_char c s = s"
  by (cases s rule: rev_cases) (auto simp: rstrip_char_def)

lemma remove_ref_last: "remove_ref s = last (split_on (CHR ''/'') s)"
  by (simp add: remove_ref_def split_on_no_sep)

lemma split_first_decomp:
  "c \<in> set s \<Longrightarrow> s = fst (split_first c s) @ c # snd (split_first c s)"
proof -
  assume "c \<in> set s"
  then have "dropWhile (\<lambda>x. x \<noteq> c) s \<noteq> []" by (simp add: dropWhile_eq_Nil_conv)
  moreover have "hd (dropWhile (\<lambda>x. x \<noteq> c) s) = c"
    using calculation hd_dropWhile [of "\<lambda>x. x \<noteq> c" s] by auto
  ultimately have "dropWhile (\<lambda>x. x \<noteq> c) s = c # drop 1 (dropWhile (\<lambda>x. x \<noteq> c) s)"
    by (cases "dropWhile (\<lambda>x. x \<noteq> c) s") auto
  then show ?thesis
    using takeWhile_dropWhile_id [of "\<lambda>x. x \<noteq> c" s] by (simp add: split_first_def)
qed

lemma count_one_tail:
  assumes "c \<in> set s" "count_list s c = 1"
  shows "c \<notin> set (snd (split_first c s))"
proof -
  let ?a = "fst (split_first c s)" and ?b = "snd (split_first c s)"
  have s: "s = ?a @ c # ?b" using split_first_decomp [OF assms(1)] .
  have "count_list s c = count_list ?a c + 1 + count_list ?b c"
    by (subst s) simp
  with assms(2) have "count_list ?b c = 0" by simp
  then show ?thesis by (simp add: count_list_0_iff)
qed

lemma same_name:
  assumes "install_ref skill_ref = Some (repo_url, skill_name)"
    and "if startswith skill_ref ''http'' then last skill_ref \<noteq> CHR ''/''
         else count_list skill_ref (CHR ''/'') = 1"
  shows "remove_ref skill_ref = skill_name"
proof (cases "startswith skill_ref ''http''")
  case True
  then have "skill_ref \<noteq> []" by (auto simp: startswith_def)
  with True assms show ?thesis
    by (auto simp add: install_ref_def remove_ref_last rstrip_char_id)
next
  case False
  with assms have mem: "CHR ''/'' \<in> set skill_ref"
    by (auto simp: install_ref_def split: if_splits)
  let ?a = "fst (split_first (CHR ''/'') skill_ref)"
  from False assms mem have nm: "skill_name = snd (split_first (CHR ''/'') skill_ref)"
    by (auto simp: install_ref_def split: prod.splits)
  from False assms have "count_list skill_ref (CHR ''/'') = 1" by simp
  then have "CHR ''/'' \<notin> set skill_name"
    using count_one_tail [OF mem] nm by simp
  then have "last (split_on (CHR ''/'') (?a @ CHR ''/'' # skill_name)) = skill_name"
    by (rule last_split_on_append)
  then show ?thesis
    using split_first_decomp [OF mem] nm by (simp add: remove_ref_last)
qed

lemma remove_skill_absent:
  "\<not> path_exists fs (joinpath skills_dir (remove_ref skill_ref)) \<Longrightarrow>
   remove_skill skill_ref skills_dir fs =
     (Returned (''Skill '' @ quoted (remove_ref skill_ref) @ '' is not installed.''), fs)"
  by (simp add: remove_skill_def Let_def)

lemma remove_skill_dir:
  assumes "is_dir fs (joinpath skills_dir (remove_ref skill_ref))"
    and "joinpath skills_dir (remove_ref skill_ref) \<noteq> []"
  shows "remove_skill skill_ref skills_dir fs =
     (Returned (''Successfully removed skill '' @ quoted (remove_ref skill_ref) @ ''.''),
      remove_entry (joinpath skills_dir (remove_ref skill_ref)) fs)"
  using assms by (simp add: remove_skill_def Let_def is_dir_def path_exists_def rmtree_def)

text \<open>
  Where the reference is a URL that does not end in a slash, or a shorthand with
  exactly one slash, \<open>remove_skill\<close> resolves the name \<open>install_skill\<close> resolves
  (\<open>same_name\<close>). The two differ on a shorthand with more slashes: \<open>install_skill\<close> keeps
  everything after the first slash, \<open>remove_skill\<close> the last piece only.
\<close>

lemma remove_ref_nested_shorthand:
  "install_ref ''owner/a/b'' = Some (''https://github.com/owner/skills'', ''a/b'')
   \<and> remove_ref ''owner/a/b'' = ''b''"
  by (simp add: install_ref_def remove_ref_def startswith_def split_first_def)

text \<open>
  Claim C1 fails on the code. On a URL that ends in a slash \<open>install_skill\<close> strips the
  slash before it takes the last piece (line 24) and resolves the name \<open>foo\<close>;
  \<open>remove_skill\<close> does not (line 71) and resolves the empty name, whose path is the
  skills directory itself: the call removes the skills directory with every skill in
  it and reports the removal of a skill of no name.
\<close>

theorem remove_skill_trailing_slash:
  "install_ref ''https://github.com/o/foo/'' = Some (''https://github.com/o/foo/'', ''foo'')
   \<and> remove_ref ''https://github.com/o/foo/'' = []
   \<and> remove_skill ''https://github.com/o/foo/'' [''skills'']
        (Dir [(''skills'', Dir [(''foo'', Dir []), (''bar'', Dir [])])])
      = (Returned (''Successfully removed skill '' @ quoted [] @ ''.''), Dir [])"
  by (simp add: install_ref_def startswith_def rstrip_char_def remove_ref_def remove_skill_def
      joinpath_def parts_def path_exists_def stat_def rmtree_def)

subsection \<open>The parser\<close>

lemma rx_match_One:
  "rx_match (One p # rs) s = Some (gs, rest) \<Longrightarrow>
   \<exists>c cs gs'. s = c # cs \<and> p c \<and> gs = [c] # gs' \<and> rx_match rs cs = Some (gs', rest)"
  by (cases s) (auto split: if_splits option.splits)

lemma rx_match_Greedy:
  "rx_match (Greedy p # rs) s = Some (gs, rest) \<Longrightarrow>
   \<exists>g s' gs'. s = g @ s' \<and> list_all p g \<and> gs = g # gs' \<and> rx_match rs s' = Some (gs', rest)"
proof (induction s arbitrary: gs)
  case Nil
  then show ?case by (auto split: option.splits)
next
  case (Cons c cs)
  show ?case
  proof (cases "p c \<and> (\<exists>g gs' r. rx_match (Greedy p # rs) cs = Some (g # gs', r))")
    case True
    then obtain g gs' r where m: "rx_match (Greedy p # rs) cs = Some (g # gs', r)" and pc: "p c"
      by blast
    with Cons.prems have eq: "gs = (c # g) # gs'" "rest = r" by auto
    from m eq have m': "rx_match (Greedy p # rs) cs = Some (g # gs', rest)" by simp
    from Cons.IH [OF m'] obtain g0 s' gs0 where
      "cs = g0 @ s'" "list_all p g0" "g # gs' = g0 # gs0" "rx_match rs s' = Some (gs0, rest)"
      by blast
    with eq pc show ?thesis
      by (intro exI [of _ "c # g0"] exI [of _ s'] exI [of _ gs0]) auto
  next
    case False
    with Cons.prems obtain gs' where "rx_match rs (c # cs) = Some (gs', rest)" "gs = [] # gs'"
      by (auto split: if_splits option.splits list.splits prod.splits)
    then show ?thesis
      by (intro exI [of _ "[]"] exI [of _ "c # cs"] exI [of _ gs']) auto
  qed
qed

lemma rx_match_Lazy:
  "rx_match (Lazy p # rs) s = Some (gs, rest) \<Longrightarrow>
   \<exists>g s' gs'. s = g @ s' \<and> list_all p g \<and> gs = g # gs' \<and> rx_match rs s' = Some (gs', rest)"
proof (induction s arbitrary: gs)
  case Nil
  then show ?case by (auto split: option.splits)
next
  case (Cons c cs)
  show ?case
  proof (cases "rx_match rs (c # cs)")
    case (Some a)
    with Cons.prems show ?thesis
      by (intro exI [of _ "[]"] exI [of _ "c # cs"] exI [of _ "fst a"]) (auto split: prod.splits)
  next
    case None
    with Cons.prems obtain g gs' where m: "rx_match (Lazy p # rs) cs = Some (g # gs', rest)"
      and pc: "p c" and eq: "gs = (c # g) # gs'"
      by (auto split: if_splits option.splits list.splits prod.splits)
    from Cons.IH [OF m] obtain g0 s' gs0 where
      "cs = g0 @ s'" "list_all p g0" "g # gs' = g0 # gs0" "rx_match rs s' = Some (gs0, rest)"
      by blast
    with eq pc show ?thesis
      by (intro exI [of _ "c # g0"] exI [of _ s'] exI [of _ gs0]) auto
  qed
qed

lemma rx_match_lit:
  "rx_match (lit t @ rs) s = Some (gs, rest) \<Longrightarrow>
   \<exists>s' gs'. s = t @ s' \<and> gs = map (\<lambda>c. [c]) t @ gs' \<and> rx_match rs s' = Some (gs', rest)"
proof (induction t arbitrary: s gs)
  case Nil
  then show ?case by (simp add: lit_def)
next
  case (Cons c t)
  from Cons.prems have "rx_match (One (\<lambda>x. x = c) # (lit t @ rs)) s = Some (gs, rest)"
    by (simp add: lit_def)
  from rx_match_One [OF this] obtain cs gs1 where
    s: "s = c # cs" and gs: "gs = [c] # gs1" and m: "rx_match (lit t @ rs) cs = Some (gs1, rest)"
    by auto
  from Cons.IH [OF m] s gs show ?case by auto
qed

lemma frontmatter_match_shape:
  assumes "frontmatter_match content = Some (group1, rest)"
  shows "\<exists>w1 w2. content = ''---'' @ w1 @ ''\<newline>'' @ group1 @ ''\<newline>---'' @ w2 @ ''\<newline>'' @ rest
           \<and> list_all isspace w1 \<and> list_all isspace w2"
proof -
  from assms obtain gs where m: "rx_match frontmatter_re content = Some (gs, rest)"
    and g: "group1 = gs ! 5"
    by (auto simp: frontmatter_match_def split: option.splits)
  let ?r1 = "[Greedy isspace] @ lit ''\<newline>'' @ [Lazy (\<lambda>c. True)]
     @ lit ''\<newline>---'' @ [Greedy isspace] @ lit ''\<newline>''"
  from m have "rx_match (lit ''---'' @ ?r1) content = Some (gs, rest)"
    by (simp add: frontmatter_re_def)
  from rx_match_lit [OF this] obtain s1 gs1 where
    c1: "content = ''---'' @ s1" and g1: "gs = map (\<lambda>c. [c]) ''---'' @ gs1"
    and m1: "rx_match ?r1 s1 = Some (gs1, rest)" by blast
  let ?r2 = "lit ''\<newline>'' @ [Lazy (\<lambda>c. True)] @ lit ''\<newline>---'' @ [Greedy isspace] @ lit ''\<newline>''"
  from m1 have "rx_match (Greedy isspace # ?r2) s1 = Some (gs1, rest)" by simp
  from rx_match_Greedy [OF this] obtain w1 s2 gs2 where
    c2: "s1 = w1 @ s2" and w1: "list_all isspace w1" and g2: "gs1 = w1 # gs2"
    and m2: "rx_match ?r2 s2 = Some (gs2, rest)" by blast
  let ?r3 = "[Lazy (\<lambda>c. True)] @ lit ''\<newline>---'' @ [Greedy isspace] @ lit ''\<newline>''"
  from rx_match_lit [OF m2] obtain s3 gs3 where
    c3: "s2 = ''\<newline>'' @ s3" and g3: "gs2 = map (\<lambda>c. [c]) ''\<newline>'' @ gs3"
    and m3: "rx_match ?r3 s3 = Some (gs3, rest)" by blast
  let ?r4 = "lit ''\<newline>---'' @ [Greedy isspace] @ lit ''\<newline>''"
  from m3 have "rx_match (Lazy (\<lambda>c. True) # ?r4) s3 = Some (gs3, rest)" by simp
  from rx_match_Lazy [OF this] obtain t s4 gs4 where
    c4: "s3 = t @ s4" and g4: "gs3 = t # gs4"
    and m4: "rx_match ?r4 s4 = Some (gs4, rest)" by blast
  let ?r5 = "[Greedy isspace] @ lit ''\<newline>''"
  from rx_match_lit [OF m4] obtain s5 gs5 where
    c5: "s4 = ''\<newline>---'' @ s5" and m5: "rx_match ?r5 s5 = Some (gs5, rest)" by blast
  from m5 have "rx_match (Greedy isspace # (lit ''\<newline>'' @ [])) s5 = Some (gs5, rest)" by simp
  from rx_match_Greedy [OF this] obtain w2 s6 gs6 where
    c6: "s5 = w2 @ s6" and w2: "list_all isspace w2"
    and m6: "rx_match (lit ''\<newline>'' @ []) s6 = Some (gs6, rest)" by blast
  from rx_match_lit [OF m6] obtain s7 gs7 where
    c7: "s6 = ''\<newline>'' @ s7" and m7: "rx_match [] s7 = Some (gs7, rest)" by blast
  from m7 have r: "s7 = rest" by simp
  have "group1 = t" using g g1 g2 g3 g4 by simp
  with c1 c2 c3 c4 c5 c6 c7 r w1 w2 show ?thesis by auto
qed

lemma name_match_nonempty: "name_match False s \<Longrightarrow> s \<noteq> []"
  by (cases s) auto

lemma parse_content_Some_iff:
  "parse_content safe_load content = Returned (Some sk) \<longleftrightarrow>
   (\<exists>group1 rest frontmatter l.
      frontmatter_match content = Some (group1, rest) \<and>
      safe_load group1 = Loaded (YMap frontmatter) \<and>
      dict_get frontmatter ''name'' = YStr (name sk) \<and>
      name sk \<noteq> [] \<and> name_re (name sk) \<and> length (name sk) \<le> 64 \<and>
      truthy (dict_get frontmatter ''description'') \<and>
      py_len (dict_get frontmatter ''description'') = Some l \<and> l \<le> 1024 \<and>
      sk = \<lparr>name = name sk, description = dict_get frontmatter ''description'',
        body = strip rest,
        allowed_tools = dict_get frontmatter ''allowed-tools'',
        license = dict_get frontmatter ''license'',
        compatibility = dict_get frontmatter ''compatibility'',
        metadata = dict_get frontmatter ''metadata''\<rparr>)"
  by (auto simp: parse_content_def Let_def
      split: option.splits prod.splits load_result.splits yaml.splits if_splits)

lemma parse_skill_Some:
  "parse_skill safe_load fs skill_path = Returned (Some sk) \<longleftrightarrow>
   (\<exists>content. stat fs skill_path = Some (IsFile content) \<and>
      parse_content safe_load content = Returned (Some sk))"
  by (auto simp: parse_skill_def split: option.splits entry.splits)



lemma strip_ws_prefix: "list_all isspace w \<Longrightarrow> strip (w @ s) = strip s"
  by (simp add: strip_def dropWhile_append2 list_all_iff)

lemma strip_all_ws: "list_all isspace s \<Longrightarrow> strip s = []"
proof -
  assume "list_all isspace s"
  then have "dropWhile isspace s = []"
    by (induction s) auto
  then show ?thesis by (simp only: strip_def rev.simps dropWhile.simps)
qed

lemma rx_match_lit_intro:
  "rx_match rs s = Some (gs, rest) \<Longrightarrow>
   rx_match (lit t @ rs) (t @ s) = Some (map (\<lambda>c. [c]) t @ gs, rest)"
  by (induction t) (simp_all add: lit_def)

lemma isspace_newline: "isspace (CHR 0x0A)"
  by (simp add: isspace_def)

lemma rx_match_Greedy_run:
  assumes "list_all isspace w" and "g \<noteq> []" and "\<not> isspace (hd g)"
    and "rx_match rs (g @ t) = Some (gs, rest)"
  shows "rx_match (Greedy isspace # lit ''\<newline>'' @ rs) (w @ ''\<newline>'' @ g @ t)
     = Some (w # ''\<newline>'' # gs, rest)"
  using assms(1)
proof (induction w)
  case Nil
  obtain c g' where g: "g = c # g'" using assms(2) by (cases g) auto
  with assms(3) have c: "\<not> isspace c" "c \<noteq> CHR 0x0A" by (auto simp: isspace_def)
  have "rx_match (Greedy isspace # lit ''\<newline>'' @ rs) (g @ t) = None"
    using g c by (simp add: lit_def)
  with assms(4) show ?case by (simp add: lit_def isspace_newline)
next
  case (Cons a w)
  then show ?case by simp
qed

lemma no_early_delimiter:
  assumes "\<not> sublist ''\<newline>---'' (c # g)"
  shows "rx_match (lit ''\<newline>---'' @ rs) (c # g @ ''\<newline>---'' @ u) = None"
proof (rule ccontr)
  assume "rx_match (lit ''\<newline>---'' @ rs) (c # g @ ''\<newline>---'' @ u) \<noteq> None"
  then obtain gs rest where
    "rx_match (lit ''\<newline>---'' @ rs) ((c # g) @ ''\<newline>---'' @ u) = Some (gs, rest)"
    by auto
  from rx_match_lit [OF this] obtain s' where
    e: "(c # g) @ ''\<newline>---'' @ u = ''\<newline>---'' @ s'" by blast
  have "prefix ''\<newline>---'' (c # g)"
  proof (cases g)
    case Nil
    with e show ?thesis by simp
  next
    case g1: (Cons c1 g1)
    show ?thesis
    proof (cases g1)
      case Nil
      with e g1 show ?thesis by simp
    next
      case g2: (Cons c2 g2)
      show ?thesis
      proof (cases g2)
        case Nil
        with e g1 g2 show ?thesis by simp
      next
        case (Cons c3 g3)
        with e g1 g2 show ?thesis by simp
      qed
    qed
  qed
  then have "sublist ''\<newline>---'' (c # g)" by (rule prefix_imp_sublist)
  with assms show False by simp
qed

lemma rx_match_Lazy_run:
  assumes "\<not> sublist ''\<newline>---'' g"
    and "rx_match (lit ''\<newline>---'' @ rs) (''\<newline>---'' @ u) = Some (gs, rest)"
  shows "rx_match (Lazy (\<lambda>c. True) # lit ''\<newline>---'' @ rs) (g @ ''\<newline>---'' @ u)
     = Some (g # gs, rest)"
  using assms(1)
proof (induction g)
  case Nil
  from assms(2) show ?case by simp
next
  case (Cons c g)
  from Cons.prems have "\<not> sublist ''\<newline>---'' g"
    by (simp add: sublist_Cons_right)
  with Cons.IH have ih: "rx_match (Lazy (\<lambda>c. True) # lit ''\<newline>---'' @ rs) (g @ ''\<newline>---'' @ u)
     = Some (g # gs, rest)" by simp
  from no_early_delimiter [OF Cons.prems]
  have "rx_match (lit ''\<newline>---'' @ rs) (c # g @ ''\<newline>---'' @ u) = None" .
  with ih show ?case by simp
qed

lemma rx_match_closing:
  "list_all isspace w2 \<Longrightarrow>
   \<exists>w rest. rx_match (Greedy isspace # lit ''\<newline>'') (w2 @ ''\<newline>'' @ r)
       = Some ([w, ''\<newline>''], rest)
     \<and> w2 @ ''\<newline>'' @ r = w @ ''\<newline>'' @ rest \<and> list_all isspace w"
proof (induction w2)
  case Nil
  show ?case
  proof (cases "rx_match (Greedy isspace # lit ''\<newline>'') r")
    case None
    then show ?thesis
      by (intro exI [of _ "[]"] exI [of _ r]) (simp add: lit_def isspace_newline)
  next
    case (Some a)
    obtain gs rest where a: "a = (gs, rest)" by (cases a)
    from Some a rx_match_Greedy [of isspace "lit ''\<newline>''" r gs rest]
    obtain g s' gs' where s: "r = g @ s'" "list_all isspace g" "gs = g # gs'"
      "rx_match (lit ''\<newline>'') s' = Some (gs', rest)" by blast
    from s(4) have "rx_match (lit ''\<newline>'' @ []) s' = Some (gs', rest)" by simp
    from rx_match_lit [OF this] have t: "s' = ''\<newline>'' @ rest" "gs' = [''\<newline>'']" by auto
    from Some a s t show ?thesis
      by (intro exI [of _ "CHR 0x0A # g"] exI [of _ rest]) (simp add: isspace_newline)
  qed
next
  case (Cons a w2)
  then obtain w rest where
    "rx_match (Greedy isspace # lit ''\<newline>'') (w2 @ ''\<newline>'' @ r) = Some ([w, ''\<newline>''], rest)"
    "w2 @ ''\<newline>'' @ r = w @ ''\<newline>'' @ rest" "list_all isspace w" by auto
  with Cons.prems show ?case
    by (intro exI [of _ "a # w"] exI [of _ rest]) simp
qed

lemma frontmatter_match_complete:
  assumes "list_all isspace w1" and "list_all isspace w2"
    and "g \<noteq> []" and "\<not> isspace (hd g)" and "\<not> sublist ''\<newline>---'' g"
  shows "\<exists>w rest. frontmatter_match (''---'' @ w1 @ ''\<newline>'' @ g @ ''\<newline>---'' @ w2 @ ''\<newline>'' @ r)
       = Some (g, rest)
     \<and> w2 @ ''\<newline>'' @ r = w @ ''\<newline>'' @ rest \<and> list_all isspace w"
proof -
  from rx_match_closing [OF assms(2), of r] obtain w rest where
    c: "rx_match (Greedy isspace # lit ''\<newline>'') (w2 @ ''\<newline>'' @ r) = Some ([w, ''\<newline>''], rest)"
    and e: "w2 @ ''\<newline>'' @ r = w @ ''\<newline>'' @ rest" and w: "list_all isspace w" by blast
  let ?rs = "Greedy isspace # lit ''\<newline>''"
  let ?u = "w2 @ ''\<newline>'' @ r"
  have d: "rx_match (lit ''\<newline>---'' @ ?rs) (''\<newline>---'' @ ?u)
      = Some (map (\<lambda>c. [c]) ''\<newline>---'' @ [w, ''\<newline>''], rest)"
    using c by (rule rx_match_lit_intro)
  have l: "rx_match (Lazy (\<lambda>c. True) # lit ''\<newline>---'' @ ?rs) (g @ ''\<newline>---'' @ ?u)
      = Some (g # map (\<lambda>c. [c]) ''\<newline>---'' @ [w, ''\<newline>''], rest)"
    using assms(5) d by (rule rx_match_Lazy_run)
  have o: "rx_match (Greedy isspace # lit ''\<newline>'' @ Lazy (\<lambda>c. True) # lit ''\<newline>---'' @ ?rs)
        (w1 @ ''\<newline>'' @ g @ ''\<newline>---'' @ ?u)
      = Some (w1 # ''\<newline>'' # g # map (\<lambda>c. [c]) ''\<newline>---'' @ [w, ''\<newline>''], rest)"
    using assms(1,3,4) l by (rule rx_match_Greedy_run)
  have "rx_match (lit ''---'' @ Greedy isspace # lit ''\<newline>'' @ Lazy (\<lambda>c. True) # lit ''\<newline>---'' @ ?rs)
        (''---'' @ w1 @ ''\<newline>'' @ g @ ''\<newline>---'' @ ?u)
      = Some (map (\<lambda>c. [c]) ''---'' @ w1 # ''\<newline>'' # g # map (\<lambda>c. [c]) ''\<newline>---'' @ [w, ''\<newline>''], rest)"
    using o by (rule rx_match_lit_intro)
  then have "frontmatter_match (''---'' @ w1 @ ''\<newline>'' @ g @ ''\<newline>---'' @ ?u) = Some (g, rest)"
    by (simp add: frontmatter_match_def frontmatter_re_def)
  with e w show ?thesis by blast
qed

text \<open>
  Claim C9, as amended. For every descriptor that \<open>parse_skill\<close> turns into a record, the
  file is the opening delimiter line, the frontmatter text that was loaded (with the
  name and the description of the record), the closing delimiter \<open>---\<close> and a remainder,
  and the body of the record is that remainder with the whitespace at both ends
  removed. And a record is returned: a file that is the opening delimiter line, a
  frontmatter text that does not start with whitespace, has no line starting with
  \<open>---\<close> and loads as a mapping with a valid name and description, and the closing
  delimiter \<open>---\<close> followed on its line by a line feed, gives the record with that name,
  that description and the stripped remainder as the body, which is empty where only
  whitespace follows the closing delimiter.
\<close>

theorem parse_skill_body:
  "(parse_skill safe_load fs skill_path = Returned (Some sk) \<longrightarrow>
     (\<exists>content w1 group1 after frontmatter.
        stat fs skill_path = Some (IsFile content) \<and>
        content = ''---'' @ w1 @ ''\<newline>'' @ group1 @ ''\<newline>---'' @ after \<and>
        list_all isspace w1 \<and>
        (\<exists>w2 rest. after = w2 @ ''\<newline>'' @ rest \<and> list_all isspace w2 \<and>
           frontmatter_match content = Some (group1, rest)) \<and>
        safe_load group1 = Loaded (YMap frontmatter) \<and>
        dict_get frontmatter ''name'' = YStr (name sk) \<and>
        dict_get frontmatter ''description'' = description sk \<and>
        body sk = strip after \<and>
        (list_all isspace after \<longrightarrow> body sk = [])))
   \<and> (stat fs skill_path
          = Some (IsFile (''---'' @ v1 @ ''\<newline>'' @ g @ ''\<newline>---'' @ v2 @ ''\<newline>'' @ r)) \<and>
        list_all isspace v1 \<and> list_all isspace v2 \<and>
        g \<noteq> [] \<and> \<not> isspace (hd g) \<and> \<not> sublist ''\<newline>---'' g \<and>
        safe_load g = Loaded (YMap fm) \<and>
        dict_get fm ''name'' = YStr n \<and> name_re n \<and> length n \<le> 64 \<and>
        dict_get fm ''description'' = YStr d \<and> d \<noteq> [] \<and> length d \<le> 1024 \<longrightarrow>
        parse_skill safe_load fs skill_path =
          Returned (Some \<lparr>name = n, description = YStr d,
            body = strip (v2 @ ''\<newline>'' @ r),
            allowed_tools = dict_get fm ''allowed-tools'',
            license = dict_get fm ''license'',
            compatibility = dict_get fm ''compatibility'',
            metadata = dict_get fm ''metadata''\<rparr>)
        \<and> (list_all isspace r \<longrightarrow> strip (v2 @ ''\<newline>'' @ r) = []))"
proof (intro conjI impI)
  assume "parse_skill safe_load fs skill_path = Returned (Some sk)"
  then obtain content where c: "stat fs skill_path = Some (IsFile content)"
    and p: "parse_content safe_load content = Returned (Some sk)"
    by (auto simp: parse_skill_Some)
  from p obtain group1 rest frontmatter where
    m: "frontmatter_match content = Some (group1, rest)"
    and l: "safe_load group1 = Loaded (YMap frontmatter)"
    and n: "dict_get frontmatter ''name'' = YStr (name sk)"
    and sk: "sk = \<lparr>name = name sk, description = dict_get frontmatter ''description'',
        body = strip rest,
        allowed_tools = dict_get frontmatter ''allowed-tools'',
        license = dict_get frontmatter ''license'',
        compatibility = dict_get frontmatter ''compatibility'',
        metadata = dict_get frontmatter ''metadata''\<rparr>"
    unfolding parse_content_Some_iff by blast
  from sk have d: "description sk = dict_get frontmatter ''description''"
    by (metis skill.select_convs(2))
  from sk have b: "body sk = strip rest"
    by (metis skill.select_convs(3))
  from frontmatter_match_shape [OF m] obtain w1 w2 where
    shape: "content = ''---'' @ w1 @ ''\<newline>'' @ group1 @ ''\<newline>---'' @ w2 @ ''\<newline>'' @ rest"
    and w1: "list_all isspace w1" and w2: "list_all isspace w2"
    by blast
  let ?after = "w2 @ ''\<newline>'' @ rest"
  have ws: "list_all isspace (w2 @ ''\<newline>'')"
    using w2 by (simp add: isspace_def)
  have "strip ?after = strip rest"
    using strip_ws_prefix [OF ws, of rest] by simp
  with b have b': "body sk = strip ?after" by simp
  have e: "list_all isspace ?after \<longrightarrow> body sk = []"
    using b' strip_all_ws [of ?after] by simp
  show "\<exists>content w1 group1 after frontmatter.
        stat fs skill_path = Some (IsFile content) \<and>
        content = ''---'' @ w1 @ ''\<newline>'' @ group1 @ ''\<newline>---'' @ after \<and>
        list_all isspace w1 \<and>
        (\<exists>w2 rest. after = w2 @ ''\<newline>'' @ rest \<and> list_all isspace w2 \<and>
           frontmatter_match content = Some (group1, rest)) \<and>
        safe_load group1 = Loaded (YMap frontmatter) \<and>
        dict_get frontmatter ''name'' = YStr (name sk) \<and>
        dict_get frontmatter ''description'' = description sk \<and>
        body sk = strip after \<and>
        (list_all isspace after \<longrightarrow> body sk = [])"
  proof (intro exI conjI)
    show "stat fs skill_path = Some (IsFile content)" by (rule c)
    show "content = ''---'' @ w1 @ ''\<newline>'' @ group1 @ ''\<newline>---'' @ ?after" by (rule shape)
    show "list_all isspace w1" by (rule w1)
    show "?after = w2 @ ''\<newline>'' @ rest" by (rule refl)
    show "list_all isspace w2" by (rule w2)
    show "frontmatter_match content = Some (group1, rest)" by (rule m)
    show "safe_load group1 = Loaded (YMap frontmatter)" by (rule l)
    show "dict_get frontmatter ''name'' = YStr (name sk)" by (rule n)
    show "dict_get frontmatter ''description'' = description sk" by (rule d [symmetric])
    show "body sk = strip ?after" by (rule b')
    show "list_all isspace ?after \<longrightarrow> body sk = []" by (rule e)
  qed
next
  assume a: "stat fs skill_path
          = Some (IsFile (''---'' @ v1 @ ''\<newline>'' @ g @ ''\<newline>---'' @ v2 @ ''\<newline>'' @ r)) \<and>
        list_all isspace v1 \<and> list_all isspace v2 \<and>
        g \<noteq> [] \<and> \<not> isspace (hd g) \<and> \<not> sublist ''\<newline>---'' g \<and>
        safe_load g = Loaded (YMap fm) \<and>
        dict_get fm ''name'' = YStr n \<and> name_re n \<and> length n \<le> 64 \<and>
        dict_get fm ''description'' = YStr d \<and> d \<noteq> [] \<and> length d \<le> 1024"
  let ?content = "''---'' @ v1 @ ''\<newline>'' @ g @ ''\<newline>---'' @ v2 @ ''\<newline>'' @ r"
  from a frontmatter_match_complete [of v1 v2 g r] obtain w rest where
    m: "frontmatter_match ?content = Some (g, rest)"
    and e: "v2 @ ''\<newline>'' @ r = w @ ''\<newline>'' @ rest" and w: "list_all isspace w"
    by blast
  have ws: "list_all isspace (w @ ''\<newline>'')"
    using w by (simp add: isspace_newline)
  have "strip (w @ ''\<newline>'' @ rest) = strip rest"
    using strip_ws_prefix [OF ws, of rest] by simp
  with e have s: "strip rest = strip (v2 @ ''\<newline>'' @ r)" by simp
  from a have "n \<noteq> []" using name_match_nonempty [of n] by (auto simp: name_re_def)
  with a m s have "parse_content safe_load ?content =
          Returned (Some \<lparr>name = n, description = YStr d,
            body = strip (v2 @ ''\<newline>'' @ r),
            allowed_tools = dict_get fm ''allowed-tools'',
            license = dict_get fm ''license'',
            compatibility = dict_get fm ''compatibility'',
            metadata = dict_get fm ''metadata''\<rparr>)"
    by (simp add: parse_content_def Let_def)
  with a show "parse_skill safe_load fs skill_path =
          Returned (Some \<lparr>name = n, description = YStr d,
            body = strip (v2 @ ''\<newline>'' @ r),
            allowed_tools = dict_get fm ''allowed-tools'',
            license = dict_get fm ''license'',
            compatibility = dict_get fm ''compatibility'',
            metadata = dict_get fm ''metadata''\<rparr>)"
    by (simp add: parse_skill_def)
next
  assume a: "stat fs skill_path
          = Some (IsFile (''---'' @ v1 @ ''\<newline>'' @ g @ ''\<newline>---'' @ v2 @ ''\<newline>'' @ r)) \<and>
        list_all isspace v1 \<and> list_all isspace v2 \<and>
        g \<noteq> [] \<and> \<not> isspace (hd g) \<and> \<not> sublist ''\<newline>---'' g \<and>
        safe_load g = Loaded (YMap fm) \<and>
        dict_get fm ''name'' = YStr n \<and> name_re n \<and> length n \<le> 64 \<and>
        dict_get fm ''description'' = YStr d \<and> d \<noteq> [] \<and> length d \<le> 1024"
    and r: "list_all isspace r"
  from a r have "list_all isspace (v2 @ ''\<newline>'' @ r)" by (simp add: isspace_newline)
  then show "strip (v2 @ ''\<newline>'' @ r) = []" by (rule strip_all_ws)
qed

text \<open>
  The theorem of C9 at the descriptor with the frontmatter \<open>name: my-skill\<close>,
  \<open>description: "x"\<close> and nothing after the line of the closing delimiter: the record
  has that name, that description and an empty body.
\<close>

theorem parse_skill_body_witness:
  \<open>parse_skill
     (load_table [(''name: my-skill\<newline>description: "x"'',
        YMap [(YStr ''name'', YStr ''my-skill''), (YStr ''description'', YStr ''x'')])])
     (Dir [(''SKILL.md'', File ''---\<newline>name: my-skill\<newline>description: "x"\<newline>---\<newline>'')])
     [''SKILL.md'']
   = Returned (Some \<lparr>name = ''my-skill'', description = YStr ''x'', body = [],
       allowed_tools = YNull, license = YNull, compatibility = YNull, metadata = YNull\<rparr>)\<close>
proof -
  let ?g = \<open>''name: my-skill\<newline>description: "x"''\<close>
  let ?fm = "[(YStr ''name'', YStr ''my-skill''), (YStr ''description'', YStr ''x'')]"
  let ?ld = "load_table [(?g, YMap ?fm)]"
  let ?fs = \<open>Dir [(''SKILL.md'', File ''---\<newline>name: my-skill\<newline>description: "x"\<newline>---\<newline>'')]\<close>
  let ?sk = "\<lparr>name = ''my-skill'', description = YStr ''x'', body = [],
       allowed_tools = YNull, license = YNull, compatibility = YNull, metadata = YNull\<rparr>"
  have st: "stat ?fs [''SKILL.md'']
      = Some (IsFile (''---'' @ [] @ ''\<newline>'' @ ?g @ ''\<newline>---'' @ [] @ ''\<newline>'' @ []))"
    by (simp add: stat_def)
  have ws: "list_all isspace []" by simp
  have g: "?g \<noteq> []" "\<not> isspace (hd ?g)" "\<not> sublist ''\<newline>---'' ?g"
    by (simp_all add: isspace_def sublist_Cons_right)
  have ld: "?ld ?g = Loaded (YMap ?fm)" by (simp add: load_table_def)
  have nm: "dict_get ?fm ''name'' = YStr ''my-skill''" "name_re ''my-skill''"
    "length ''my-skill'' \<le> 64"
    by (simp_all add: dict_get_def name_re_def lower_or_digit_def)
  have de: "dict_get ?fm ''description'' = YStr ''x''" "''x'' \<noteq> []" "length ''x'' \<le> 1024"
    by (simp_all add: dict_get_def)
  note t = parse_skill_body [of ?ld ?fs "[''SKILL.md'']" ?sk "[]" ?g "[]" "[]" ?fm
      "''my-skill''" "''x''"]
  from t st ws g ld nm de
  have r: "parse_skill ?ld ?fs [''SKILL.md''] =
          Returned (Some \<lparr>name = ''my-skill'', description = YStr ''x'',
            body = strip ([] @ ''\<newline>'' @ []),
            allowed_tools = dict_get ?fm ''allowed-tools'',
            license = dict_get ?fm ''license'',
            compatibility = dict_get ?fm ''compatibility'',
            metadata = dict_get ?fm ''metadata''\<rparr>)"
    and e: "strip ([] @ ''\<newline>'' @ []) = []"
    by blast+
  from r e have p: "parse_skill ?ld ?fs [''SKILL.md''] = Returned (Some ?sk)"
    by (simp add: dict_get_def)
  from t p have "\<exists>after. body ?sk = strip after \<and> (list_all isspace after \<longrightarrow> body ?sk = [])"
    by blast
  with p show ?thesis by simp
qed

text \<open>
  Claim C9 as stated fails at the same descriptor without the line feed after the
  closing \<open>---\<close>: the pattern of line 26 ends in a line feed, so the file has no
  frontmatter for \<open>parse_skill\<close> and no record is returned, although the frontmatter is
  valid and nothing follows it.
\<close>

theorem parse_skill_body_counterexample:
  \<open>parse_skill
     (load_table [(''name: my-skill\<newline>description: "x"'',
        YMap [(YStr ''name'', YStr ''my-skill''), (YStr ''description'', YStr ''x'')])])
     (Dir [(''SKILL.md'', File ''---\<newline>name: my-skill\<newline>description: "x"\<newline>---'')])
     [''SKILL.md'']
   = Returned None\<close>
  by (simp add: parse_skill_def stat_def parse_content_def frontmatter_match_def
      frontmatter_re_def lit_def isspace_def)

text \<open>
  Claim C2 fails on the code. A descriptor whose frontmatter is the YAML sequence
  \<open>- a\<close> makes \<open>parse_skill\<close> raise \<open>AttributeError\<close> (line 36 calls \<open>get\<close> on a list);
  one whose frontmatter gives the integer 123 as the name makes it raise \<open>TypeError\<close>
  (line 43 hands the integer to \<open>re.match\<close>).
\<close>

theorem parse_skill_raises:
  "parse_skill (load_table [(''- a'', YSeq [YStr ''a''])])
     (Dir [(''SKILL.md'', File ''---\<newline>- a\<newline>---\<newline>'')]) [''SKILL.md'']
   = Raised (AttributeError (quoted ''list'' @ '' object has no attribute '' @ quoted ''get''))
   \<and> parse_skill (load_table [(''name: 123\<newline>description: x'',
        YMap [(YStr ''name'', YInt 123), (YStr ''description'', YStr ''x'')])])
     (Dir [(''SKILL.md'', File ''---\<newline>name: 123\<newline>description: x\<newline>---\<newline>'')]) [''SKILL.md'']
   = Raised (TypeError (''expected string or bytes-like object, got '' @ quoted ''int''))"
  by (simp add: parse_skill_def stat_def parse_content_def frontmatter_match_def
        frontmatter_re_def lit_def isspace_def load_table_def dict_get_def)

subsection \<open>Listing the skills\<close>

lemma list_skills_absent:
  "lookup fs skills_dir = None \<Longrightarrow> list_skills safe_load fs skills_dir = Returned []"
  by (simp add: list_skills_def)

lemma collect_skills_Returned:
  assumes "\<forall>(nm, n) \<in> set es. is_dir fs (skills_dir @ [nm]) \<and> \<not> startswith nm ''.'' \<longrightarrow>
             (\<exists>r. parse_skill safe_load fs (skills_dir @ [nm, ''SKILL.md'']) = Returned r)"
  shows "collect_skills safe_load fs skills_dir es =
     Returned (List.map_filter
       (\<lambda>(nm, n). if is_dir fs (skills_dir @ [nm]) \<and> \<not> startswith nm ''.''
          then (case parse_skill safe_load fs (skills_dir @ [nm, ''SKILL.md'']) of
                  Returned r \<Rightarrow> r | Raised e \<Rightarrow> None)
          else None) es)"
  using assms
proof (induction es)
  case Nil
  show ?case by (simp add: List.map_filter_simps)
next
  case (Cons a es)
  obtain nm n where a: "a = (nm, n)" by (cases a)
  from Cons.prems have "\<forall>(nm, n) \<in> set es. is_dir fs (skills_dir @ [nm]) \<and> \<not> startswith nm ''.'' \<longrightarrow>
             (\<exists>r. parse_skill safe_load fs (skills_dir @ [nm, ''SKILL.md'']) = Returned r)"
    by auto
  from Cons.IH [OF this] Cons.prems a show ?case
    by (auto simp: List.map_filter_simps split: outcome.splits option.splits)
qed

lemma list_skills_Returned:
  assumes "lookup fs skills_dir = Some (Dir es)"
    and "\<forall>(nm, n) \<in> set (AList.clearjunk es). is_dir fs (skills_dir @ [nm]) \<and> \<not> startswith nm ''.'' \<longrightarrow>
             (\<exists>r. parse_skill safe_load fs (skills_dir @ [nm, ''SKILL.md'']) = Returned r)"
  shows "list_skills safe_load fs skills_dir =
     Returned (sort_key name (List.map_filter
       (\<lambda>(nm, n). if is_dir fs (skills_dir @ [nm]) \<and> \<not> startswith nm ''.''
          then (case parse_skill safe_load fs (skills_dir @ [nm, ''SKILL.md'']) of
                  Returned r \<Rightarrow> r | Raised e \<Rightarrow> None)
          else None) (AList.clearjunk es)))"
  using assms(1) collect_skills_Returned [OF assms(2)]
  by (simp add: list_skills_def)

lemma list_skills_spec_example: \<open>list_skills (load_table [(''name: beta\<newline>description: b'', YMap [(YStr ''name'', YStr ''beta''), (YStr ''description'', YStr ''b'')]),
   (''name: alpha\<newline>description: a'', YMap [(YStr ''name'', YStr ''alpha''), (YStr ''description'', YStr ''a'')]),
   (''description: c'', YMap [(YStr ''description'', YStr ''c'')])])
  (Dir [(''skills'', Dir [
     (''two'', Dir [(''SKILL.md'', File ''---\<newline>name: beta\<newline>description: b\<newline>---\<newline>B\<newline>'')]),
     (''one'', Dir [(''SKILL.md'', File ''---\<newline>name: alpha\<newline>description: a\<newline>---\<newline>A\<newline>'')]),
     (''bad'', Dir [(''SKILL.md'', File ''---\<newline>description: c\<newline>---\<newline>C\<newline>'')])])])
  [''skills''] = Returned [\<lparr>name = ''alpha'', description = YStr ''a'', body = ''A'',
       allowed_tools = YNull, license = YNull, compatibility = YNull, metadata = YNull\<rparr>,
       \<lparr>name = ''beta'', description = YStr ''b'', body = ''B'',
       allowed_tools = YNull, license = YNull, compatibility = YNull, metadata = YNull\<rparr>]\<close>
  by (simp add: list_skills_def is_dir_def startswith_def parse_skill_def stat_def parse_content_def frontmatter_match_def
        frontmatter_re_def lit_def isspace_def load_table_def dict_get_def name_re_def
        lower_or_digit_def strip_def)

text \<open>
  Claim C6 fails on the code, from the defect of C2. Of three subdirectories two hold
  valid descriptors and the third one a descriptor whose frontmatter is a YAML
  sequence: \<open>list_skills\<close> does not discard the third and return the two records, it
  raises the \<open>AttributeError\<close> of \<open>parse_skill\<close>. (Where no descriptor makes \<open>parse_skill\<close>
  raise, the result is as the claim says: \<open>list_skills_absent\<close>, \<open>list_skills_Returned\<close>
  and, for the invalid descriptor of the specification's example, which has no name,
  \<open>list_skills_spec_example\<close>.)
\<close>

theorem list_skills_raises:
  \<open>list_skills (load_table [(''name: beta\<newline>description: b'', YMap [(YStr ''name'', YStr ''beta''), (YStr ''description'', YStr ''b'')]),
   (''name: alpha\<newline>description: a'', YMap [(YStr ''name'', YStr ''alpha''), (YStr ''description'', YStr ''a'')]),
   (''- c'', YSeq [YStr ''c''])])
  (Dir [(''skills'', Dir [
     (''two'', Dir [(''SKILL.md'', File ''---\<newline>name: beta\<newline>description: b\<newline>---\<newline>B\<newline>'')]),
     (''one'', Dir [(''SKILL.md'', File ''---\<newline>name: alpha\<newline>description: a\<newline>---\<newline>A\<newline>'')]),
     (''bad'', Dir [(''SKILL.md'', File ''---\<newline>- c\<newline>---\<newline>C\<newline>'')])])])
  [''skills'']
  = Raised (AttributeError (quoted ''list'' @ '' object has no attribute '' @ quoted ''get''))\<close>
  by (simp add: list_skills_def is_dir_def startswith_def parse_skill_def stat_def parse_content_def frontmatter_match_def
        frontmatter_re_def lit_def isspace_def load_table_def dict_get_def name_re_def
        lower_or_digit_def strip_def)

subsection \<open>The active skill\<close>

lemma is_dir_parent_not_blocked: "is_dir fs (butlast p) \<Longrightarrow> \<not> blocked fs p"
proof (induction fs p rule: blocked.induct)
  case (1 n)
  show ?case by simp
next
  case (2 s c cs)
  then show ?case by (cases cs) (auto simp: is_dir_def stat_def)
next
  case (3 es c cs)
  show ?case
  proof (cases cs)
    case Nil
    then show ?thesis by (auto split: option.splits)
  next
    case (Cons d ds)
    with 3 show ?thesis
      by (auto simp: is_dir_def stat_def split: option.splits)
  qed
qed

lemma stat_put_same:
  "p \<noteq> [] \<Longrightarrow> \<not> blocked fs p \<Longrightarrow> stat (put p n fs) p = stat n []"
proof (induction p n fs rule: put.induct)
  case (1 n fs)
  then show ?case by simp
next
  case (2 c n es)
  then show ?case by (simp add: stat_def update_conv')
next
  case (3 c v va n es)
  then show ?case
    by (auto simp: stat_def update_conv' split: option.splits)
next
  case (4 c cs n s)
  then show ?case by simp
qed

text \<open>
  Claim C5. Let the state file be absent or a regular file with any text, in a
  directory that exists, and let \<open>json.loads\<close> read back what \<open>json.dumps\<close> writes for
  the record. Then \<open>set_active_skill\<close> followed by \<open>get_active_skill\<close> returns the object
  with exactly the fields \<open>name\<close> and \<open>allowed_tools\<close> (\<open>None\<close> where no tools are given),
  and \<open>clear_active_skill\<close> followed by \<open>get_active_skill\<close> returns \<open>None\<close>.
\<close>

theorem set_then_get_active:
  "(loads (dumps (JObj [(''name'', JStr nm),
        (''allowed_tools'', (case tools of None \<Rightarrow> JNull | Some t \<Rightarrow> JStr t))]))
      = Some (JObj [(''name'', JStr nm),
        (''allowed_tools'', (case tools of None \<Rightarrow> JNull | Some t \<Rightarrow> JStr t))])
    \<and> state_file \<noteq> [] \<and> is_dir fs (butlast state_file) \<and> \<not> is_dir fs state_file
    \<longrightarrow> (\<exists>fs'. set_active_skill dumps state_file nm tools fs = (None, fs')
          \<and> get_active_skill loads state_file fs'
              = JObj [(''name'', JStr nm),
                  (''allowed_tools'', (case tools of None \<Rightarrow> JNull | Some t \<Rightarrow> JStr t))]))
   \<and> (state_file \<noteq> [] \<and> \<not> is_dir fs state_file
    \<longrightarrow> (\<exists>fs'. clear_active_skill state_file fs = (None, fs')
          \<and> get_active_skill loads state_file fs' = JNull))"
proof (intro conjI impI)
  let ?data = "JObj [(''name'', JStr nm),
        (''allowed_tools'', (case tools of None \<Rightarrow> JNull | Some t \<Rightarrow> JStr t))]"
  assume a: "loads (dumps ?data) = Some ?data
    \<and> state_file \<noteq> [] \<and> is_dir fs (butlast state_file) \<and> \<not> is_dir fs state_file"
  then have nb: "\<not> blocked fs state_file" by (simp add: is_dir_parent_not_blocked)
  with a have w: "set_active_skill dumps state_file nm tools fs
      = (None, put state_file (File (dumps ?data)) fs)"
    by (simp add: set_active_skill_def write_text_def)
  have "stat (put state_file (File (dumps ?data)) fs) state_file = Some (IsFile (dumps ?data))"
    using a nb by (simp add: stat_put_same) (simp add: stat_def)
  with a have "get_active_skill loads state_file (put state_file (File (dumps ?data)) fs) = ?data"
    by (simp add: get_active_skill_def)
  with w show "\<exists>fs'. set_active_skill dumps state_file nm tools fs = (None, fs')
          \<and> get_active_skill loads state_file fs' = ?data"
    by blast
next
  assume a: "state_file \<noteq> [] \<and> \<not> is_dir fs state_file"
  show "\<exists>fs'. clear_active_skill state_file fs = (None, fs')
          \<and> get_active_skill loads state_file fs' = JNull"
  proof (cases "stat fs state_file")
    case None
    then show ?thesis
      by (simp add: clear_active_skill_def path_exists_def get_active_skill_def)
  next
    case (Some e)
    with a obtain t0 where e: "e = IsFile t0"
      by (cases e) (auto simp: is_dir_def)
    with Some have "clear_active_skill state_file fs = (None, remove_entry state_file fs)"
      by (simp add: clear_active_skill_def path_exists_def unlink_def)
    moreover have "stat (remove_entry state_file fs) state_file = None"
      using a by (simp add: stat_remove_entry)
    ultimately show ?thesis by (simp add: get_active_skill_def)
  qed
qed

text \<open>
  The theorem of C5 at the name \<open>foo\<close> and the tools \<open>Read,Write\<close>, over a state file that
  holds a truncated object.
\<close>

theorem set_then_get_active_witness:
  \<open>get_active_skill
     (\<lambda>s. if s = ''{"name": "foo", "allowed_tools": "Read,Write"}''
          then Some (JObj [(''name'', JStr ''foo''), (''allowed_tools'', JStr ''Read,Write'')])
          else None)
     [''plugin'', ''.active_skill.json'']
     (snd (set_active_skill (\<lambda>v. ''{"name": "foo", "allowed_tools": "Read,Write"}'')
        [''plugin'', ''.active_skill.json''] ''foo'' (Some ''Read,Write'')
        (Dir [(''plugin'', Dir [(''.active_skill.json'', File ''{"name": "old"'')])])))
   = JObj [(''name'', JStr ''foo''), (''allowed_tools'', JStr ''Read,Write'')]
   \<and> get_active_skill (\<lambda>s. None) [''plugin'', ''.active_skill.json'']
     (snd (clear_active_skill [''plugin'', ''.active_skill.json'']
        (Dir [(''plugin'', Dir [(''.active_skill.json'', File ''{"name": "old"'')])])))
   = JNull\<close>
proof -
  let ?loads = \<open>\<lambda>s. if s = ''{"name": "foo", "allowed_tools": "Read,Write"}''
          then Some (JObj [(''name'', JStr ''foo''), (''allowed_tools'', JStr ''Read,Write'')])
          else None\<close>
  let ?dumps = \<open>\<lambda>v::json. ''{"name": "foo", "allowed_tools": "Read,Write"}''\<close>
  let ?sf = "[''plugin'', ''.active_skill.json'']"
  let ?fs = \<open>Dir [(''plugin'', Dir [(''.active_skill.json'', File ''{"name": "old"'')])]\<close>
  have h: "?sf \<noteq> [] \<and> is_dir ?fs (butlast ?sf) \<and> \<not> is_dir ?fs ?sf"
    by (simp add: is_dir_def stat_def)
  have r: "?loads (?dumps (JObj [(''name'', JStr ''foo''),
        (''allowed_tools'', (case Some ''Read,Write'' of None \<Rightarrow> JNull | Some t \<Rightarrow> JStr t))]))
      = Some (JObj [(''name'', JStr ''foo''),
        (''allowed_tools'', (case Some ''Read,Write'' of None \<Rightarrow> JNull | Some t \<Rightarrow> JStr t))])"
    by simp
  from set_then_get_active [of ?loads ?dumps "''foo''" "Some ''Read,Write''" ?sf ?fs] h r
  have 1: "get_active_skill ?loads ?sf (snd (set_active_skill ?dumps ?sf ''foo'' (Some ''Read,Write'') ?fs))
     = JObj [(''name'', JStr ''foo''), (''allowed_tools'', JStr ''Read,Write'')]"
    by auto
  from set_then_get_active [of "\<lambda>s. None" ?dumps "''foo''" "Some ''Read,Write''" ?sf ?fs] h
  have 2: "get_active_skill (\<lambda>s. None) ?sf (snd (clear_active_skill ?sf ?fs)) = JNull"
    by auto
  from 1 2 show ?thesis by simp
qed

subsection \<open>Installing a skill\<close>

lemma stat_Nil: "stat fs [] = (case fs of File s \<Rightarrow> Some (IsFile s) | Dir es \<Rightarrow> Some IsDir)"
  by (simp add: stat_def split: node.splits)

lemma stat_Cons_Dir:
  "stat (Dir es) (c # cs) = (case map_of es c of None \<Rightarrow> None | Some n \<Rightarrow> stat n cs)"
  by (simp add: stat_def split: option.splits)

lemma stat_Cons_File: "stat (File s) (c # cs) = None"
  by (simp add: stat_def)

lemma stat_empty_dir: "stat (Dir []) q = (if q = [] then Some IsDir else None)"
  by (cases q) (simp_all add: stat_Nil stat_Cons_Dir)

lemma exists_not_blocked: "stat fs p \<noteq> None \<Longrightarrow> \<not> blocked fs p"
  by (induction fs p rule: blocked.induct) (auto simp: stat_Cons_Dir stat_Cons_File split: option.splits)

lemma stat_put:
  "\<not> blocked fs p \<Longrightarrow> stat fs p = None \<Longrightarrow>
   stat (put p (Dir []) fs) q =
     (if prefix q p then Some IsDir else stat fs q)"
proof (induction p "Dir [] :: node" fs arbitrary: q rule: put.induct)
  case (1 fs)
  then show ?case by (simp add: stat_Nil split: node.splits)
next
  case (2 c es)
  then show ?case
    by (cases q)
      (auto simp: stat_Nil stat_Cons_Dir stat_empty_dir update_conv' split: option.splits node.splits)
next
  case (3 c v va es)
  show ?case
  proof (cases q)
    case Nil
    then show ?thesis by (simp add: stat_Nil)
  next
    case (Cons d ds)
    show ?thesis
    proof (cases "map_of es c")
      case None
      have nb: "\<not> blocked (Dir []) (v # va)" by simp
      have ne: "stat (Dir []) (v # va) = None" by (simp add: stat_Cons_Dir)
      have sub: "stat (put (v # va) (Dir []) (Dir [])) ds =
         (if prefix ds (v # va) then Some IsDir else stat (Dir []) ds)"
        using "3.hyps" [of ds] None nb ne by simp
      have e: "stat (Dir []) ds = (if ds = [] then Some IsDir else None)"
        by (cases ds) (simp_all add: stat_Nil stat_Cons_Dir)
      from Cons None sub e "3.prems" show ?thesis
        by (auto simp: stat_Cons_Dir update_conv' split: option.splits)
    next
      case (Some m)
      from "3.prems" Some have nb: "\<not> blocked m (v # va)" and ne: "stat m (v # va) = None"
        by (simp_all add: stat_Cons_Dir)
      have sub: "stat (put (v # va) (Dir []) m) ds =
         (if prefix ds (v # va) then Some IsDir else stat m ds)"
        using "3.hyps" [of ds] Some nb ne by simp
      from Cons Some sub show ?thesis
        by (auto simp: stat_Cons_Dir update_conv' split: option.splits)
    qed
  qed
next
  case (4 c cs s)
  then show ?case by simp
qed

lemma mkdir_p_creates:
  assumes "\<not> blocked fs p" and "stat fs p = None \<or> is_dir fs p"
  shows "\<exists>fs1. mkdir_p p fs = (None, fs1) \<and>
           (\<forall>q. stat fs1 q = (if prefix q p then Some IsDir else stat fs q))"
proof (cases "stat fs p")
  case None
  with assms(1) show ?thesis
    by (simp add: mkdir_p_def stat_put)
next
  case (Some e)
  with assms(2) have d: "stat fs p = Some IsDir" by (simp add: is_dir_def)
  have "stat fs q = Some IsDir" if "prefix q p" for q
  proof -
    from that obtain r where "p = q @ r" by (auto simp: prefix_def)
    with d show ?thesis
    proof (induction q arbitrary: fs p)
      case Nil
      then show ?case by (cases fs) (simp_all add: stat_Nil stat_Cons_File, cases r, simp_all add: stat_Nil stat_Cons_File)
    next
      case (Cons a q)
      then show ?case
        by (cases fs) (auto simp: stat_Cons_Dir stat_Cons_File split: option.splits)
    qed
  qed
  with assms(1) d show ?thesis by (simp add: mkdir_p_def)
qed

lemma mkdir_p_existing:
  "is_dir fs p \<Longrightarrow> mkdir_p p fs = (None, fs)"
  using exists_not_blocked [of fs p] by (simp add: mkdir_p_def is_dir_def)


text \<open>
  Claim C7. Where the target root is a directory and a directory stands at the path of
  the resolved skill name, \<open>install_skill\<close> returns the already-installed message, leaves
  the filesystem exactly as it was and runs no command (no clone is attempted).
\<close>

theorem install_already_installed:
  "install_ref skill_ref = Some (repo_url, skill_name) \<and> is_dir fs skills_dir \<and>
   is_dir fs (joinpath skills_dir skill_name) \<longrightarrow>
   install_skill run skill_ref skills_dir fs =
     (Returned (''Skill '' @ quoted skill_name
        @ '' is already installed. Remove it first to reinstall.''), fs, [])"
  by (auto simp: install_skill_def mkdir_p_existing path_exists_def is_dir_def)

text \<open>
  The theorem of C7 at the reference \<open>owner/foo\<close> with a directory \<open>foo\<close> in place, under a
  runner that would empty the filesystem if it were called.
\<close>

theorem install_already_installed_witness:
  "install_skill (\<lambda>cmd fs. (Completed 0 [], Dir [])) ''owner/foo'' [''skills'']
     (Dir [(''skills'', Dir [(''foo'', Dir [(''SKILL.md'', File ''old'')])])])
   = (Returned ''Skill 'foo' is already installed. Remove it first to reinstall.'',
      Dir [(''skills'', Dir [(''foo'', Dir [(''SKILL.md'', File ''old'')])])], [])"
proof -
  let ?fs = "Dir [(''skills'', Dir [(''foo'', Dir [(''SKILL.md'', File ''old'')])])]"
  have r: "install_ref ''owner/foo'' = Some (''https://github.com/owner/skills'', ''foo'')"
    by (simp add: install_ref_def startswith_def split_first_def)
  have d: "is_dir ?fs [''skills'']" "is_dir ?fs (joinpath [''skills''] ''foo'')"
    by (simp_all add: is_dir_def stat_def joinpath_def startswith_def parts_def)
  from install_already_installed [of "''owner/foo''" "''https://github.com/owner/skills''"
      "''foo''" ?fs "[''skills'']" "\<lambda>cmd fs. (Completed 0 [], Dir [])"] r d
  show ?thesis by (simp add: quoted_def)
qed



text \<open>
  Where a regular file stands at the target root or on the way to it, the \<open>mkdir\<close> of
  line 19 raises, and what it raises leaves \<open>install_skill\<close>, whatever the reference.
\<close>

lemma install_mkdir_raises:
  "blocked fs skills_dir \<or> (\<exists>s. stat fs skills_dir = Some (IsFile s)) \<Longrightarrow>
   \<exists>e. install_skill run skill_ref skills_dir fs = (Raised e, fs, [])"
  by (auto simp: install_skill_def mkdir_p_def)

lemma mkdir_p_is_dir: "mkdir_p p fs = (None, fs0) \<Longrightarrow> is_dir fs0 p"
  by (auto simp: mkdir_p_def is_dir_def stat_put split: if_splits option.splits entry.splits)

lemma rmtree_keeps_dir:
  assumes "is_dir fs root" and "strict_prefix root t"
  shows "is_dir (snd (rmtree t fs)) root"
proof -
  from assms(2) have "t \<noteq> []" "\<not> prefix t root" by (auto simp: strict_prefix_def)
  with assms(1) show ?thesis
    by (auto simp: rmtree_def is_dir_def stat_remove_entry split: option.splits entry.splits)
qed

lemma put_keeps_dir:
  "\<not> prefix q root \<Longrightarrow> is_dir fs root \<Longrightarrow> is_dir (put q n fs) root"
proof (induction q n fs arbitrary: root rule: put.induct)
  case (1 n fs)
  then show ?case by simp
next
  case (2 c n es)
  then show ?case
    by (cases root) (auto simp: is_dir_def stat_Nil stat_Cons_Dir update_conv' split: option.splits)
next
  case (3 c v va n es)
  show ?case
  proof (cases root)
    case Nil
    then show ?thesis by (simp add: is_dir_def stat_Nil)
  next
    case (Cons d ds)
    show ?thesis
    proof (cases "d = c")
      case False
      with Cons "3.prems" show ?thesis
        by (auto simp: is_dir_def stat_Cons_Dir update_conv' split: option.splits)
    next
      case True
      with Cons "3.prems" obtain m where m: "map_of es c = Some m" and dm: "is_dir m ds"
        by (auto simp: is_dir_def stat_Cons_Dir split: option.splits)
      from Cons True "3.prems" have np: "\<not> prefix (v # va) ds" by simp
      have "is_dir (put (v # va) n m) ds"
        using "3.IH" [OF np] m dm by simp
      with Cons True m show ?thesis
        by (simp add: is_dir_def stat_Cons_Dir update_conv')
    qed
  qed
next
  case (4 c cs n s)
  then show ?case by simp
qed

lemma remove_entry_keeps_dir:
  "\<not> prefix p root \<Longrightarrow> is_dir fs root \<Longrightarrow> is_dir (remove_entry p fs) root"
  by (cases "p = []") (simp_all add: is_dir_def stat_remove_entry)

lemma shutil_move_same: "snd (shutil_move p p fs) = fs"
  by (auto simp: shutil_move_def Let_def split: option.splits)

lemma shutil_move_keeps_dir:
  assumes "is_dir fs root" and "\<not> prefix src root" and "\<not> prefix dst root"
  shows "is_dir (snd (shutil_move src dst fs)) root"
proof -
  have "\<not> prefix (dst @ [b]) root" for b
    using assms(3) by (meson prefix_order.trans prefixI)
  with assms show ?thesis
    by (auto simp: shutil_move_def Let_def put_keeps_dir remove_entry_keeps_dir
        split: option.splits)
qed

lemma split_on_prepend:
  "c \<notin> set a \<Longrightarrow> split_on c (a @ s) = (a @ hd (split_on c s)) # tl (split_on c s)"
proof (induction a)
  case Nil
  then show ?case using split_on_nonempty [of c s] by simp
next
  case (Cons x a)
  then show ?case by auto
qed

lemma parts_tmp_nonempty: "parts (''.tmp_'' @ s) \<noteq> []"
proof -
  have "split_on (CHR ''/'') (''.tmp_'' @ s)
      = (''.tmp_'' @ hd (split_on (CHR ''/'') s)) # tl (split_on (CHR ''/'') s)"
    by (rule split_on_prepend) simp
  then show ?thesis by (simp add: parts_def)
qed

lemma temp_dir_below: "strict_prefix root (joinpath root (''.tmp_'' @ s))"
  using parts_tmp_nonempty [of s]
  by (auto simp: joinpath_def startswith_def strict_prefix_def)

lemma parts_skills: "parts ''skills'' = [''skills'']"
  by (simp add: parts_def)

lemma place_skill_keeps_dir:
  assumes "is_dir fs root" and "path_exists fs root \<Longrightarrow> joinpath root s \<noteq> root"
  shows "is_dir (snd (place_skill s (joinpath root (''.tmp_'' @ s)) (joinpath root s) fs)) root"
proof -
  let ?temp = "joinpath root (''.tmp_'' @ s)"
  let ?src = "joinpath (joinpath ?temp ''skills'') s"
  let ?dst = "joinpath root s"
  have t: "strict_prefix root ?temp" by (rule temp_dir_below)
  have mv: "is_dir (snd (shutil_move ?src ?dst fs)) root"
  proof (cases "startswith s ''/''")
    case True
    then have "?src = ?dst" by (simp add: joinpath_def)
    then show ?thesis using assms(1) by (simp add: shutil_move_same)
  next
    case False
    from assms have "?dst \<noteq> root" by (simp add: is_dir_def path_exists_def)
    with False have d: "\<not> prefix ?dst root" by (auto simp: joinpath_def prefix_def)
    from False have "?src = ?temp @ [''skills''] @ parts s"
      by (simp add: joinpath_def startswith_def parts_skills)
    with t have "\<not> prefix ?src root"
      by (auto simp: strict_prefix_def prefix_def)
    with assms(1) d show ?thesis by (simp add: shutil_move_keeps_dir)
  qed
  have rm: "is_dir (snd (rmtree ?temp f)) root" if "is_dir f root" for f
    using that t by (rule rmtree_keeps_dir)
  show ?thesis
  proof (cases "path_exists fs ?src")
    case False
    obtain e1 fs1 where r1: "rmtree ?temp fs = (e1, fs1)" by (cases "rmtree ?temp fs")
    with rm [OF assms(1)] have "is_dir fs1 root" by simp
    with False r1 show ?thesis
      by (cases e1) (simp_all add: place_skill_def Let_def)
  next
    case True
    obtain e1 fs1 where m1: "shutil_move ?src ?dst fs = (e1, fs1)"
      by (cases "shutil_move ?src ?dst fs")
    with mv have d1: "is_dir fs1 root" by simp
    show ?thesis
    proof (cases e1)
      case (Some e)
      with True m1 d1 show ?thesis by (simp add: place_skill_def Let_def)
    next
      case None
      obtain e2 fs2 where r2: "rmtree ?temp fs1 = (e2, fs2)" by (cases "rmtree ?temp fs1")
      with rm [OF d1] have "is_dir fs2 root" by simp
      with True m1 None r2 show ?thesis
        by (cases e2) (simp_all add: place_skill_def Let_def)
    qed
  qed
qed

lemma fetch_skill_keeps_dir:
  assumes run: "\<forall>cmd f. is_dir f root \<longrightarrow> is_dir (snd (run cmd f)) root"
    and d: "is_dir fs root" and ne: "joinpath root s \<noteq> root"
  shows "is_dir (fst (snd (fetch_skill run url s root (joinpath root s) fs))) root"
proof -
  let ?temp = "joinpath root (''.tmp_'' @ s)"
  let ?clone = "[''git'', ''clone'', ''--depth'', ''1'', ''--filter=blob:none'', ''--sparse'',
                   url, str_path ?temp]"
  let ?sparse = "[''git'', ''-C'', str_path ?temp, ''sparse-checkout'', ''set'', ''skills/'' @ s]"
  obtain p1 fs1 where r1: "run ?clone fs = (p1, fs1)" by (cases "run ?clone fs")
  from run d r1 have d1: "is_dir fs1 root" by (metis snd_conv)
  show ?thesis
  proof (cases p1)
    case (NotStarted e)
    with r1 d1 show ?thesis by (simp add: fetch_skill_def Let_def)
  next
    case (Completed rc err)
    show ?thesis
    proof (cases "rc = 0")
      case False
      with Completed r1 d1 show ?thesis by (simp add: fetch_skill_def Let_def)
    next
      case True
      obtain p2 fs2 where r2: "run ?sparse fs1 = (p2, fs2)" by (cases "run ?sparse fs1")
      from run d1 r2 have d2: "is_dir fs2 root" by (metis snd_conv)
      show ?thesis
      proof (cases p2)
        case (NotStarted e)
        with Completed True r1 r2 d2 show ?thesis by (simp add: fetch_skill_def Let_def)
      next
        case c2: (Completed rc2 err2)
        obtain m3 fs3 where p3: "place_skill s ?temp (joinpath root s) fs2 = (m3, fs3)"
          by (cases "place_skill s ?temp (joinpath root s) fs2")
        have "is_dir (snd (place_skill s ?temp (joinpath root s) fs2)) root"
          using d2 ne by (rule place_skill_keeps_dir)
        with p3 have "is_dir fs3 root" by simp
        with Completed True r1 r2 c2 p3 show ?thesis
          by (simp add: fetch_skill_def Let_def)
      qed
    qed
  qed
qed

lemma install_skill_Returned:
  assumes "install_skill run skill_ref skills_dir fs = (Returned msg, fs', cmds)"
  shows "\<exists>fs0. mkdir_p skills_dir fs = (None, fs0)"
  using assms by (auto simp: install_skill_def split: prod.splits option.splits)

lemma install_skill_returns:
  assumes "mkdir_p skills_dir fs = (None, fs0)"
  shows "\<exists>msg fs' cmds. install_skill run skill_ref skills_dir fs = (Returned msg, fs', cmds)"
  using assms by (auto simp: install_skill_def Let_def split: prod.splits option.splits)

text \<open>
  Claim C10. Let the commands that are run keep the target root a directory where it is
  one. Then every call of \<open>install_skill\<close> that returns leaves the target root a
  directory, and the call returns whenever no regular file stands at the target root or
  on the way to it. The root is created before the reference is looked at: a call with
  an invalid reference and a target root that was absent returns the invalid-reference
  message and leaves the root and its missing parents as directories, with every other
  path as it was.
\<close>

theorem install_creates_root:
  "(\<forall>cmd f. is_dir f skills_dir \<longrightarrow> is_dir (snd (run cmd f)) skills_dir) \<longrightarrow>
   (\<not> blocked fs skills_dir \<and> (stat fs skills_dir = None \<or> is_dir fs skills_dir) \<longrightarrow>
      (\<exists>msg fs' cmds. install_skill run skill_ref skills_dir fs = (Returned msg, fs', cmds)))
   \<and> (\<forall>msg fs' cmds. install_skill run skill_ref skills_dir fs = (Returned msg, fs', cmds) \<longrightarrow>
        is_dir fs' skills_dir)
   \<and> (install_ref skill_ref = None \<and> \<not> blocked fs skills_dir \<and> stat fs skills_dir = None \<longrightarrow>
        (\<exists>fs'. install_skill run skill_ref skills_dir fs =
           (Returned (''Error: Invalid skill reference '' @ quoted skill_ref
              @ ''. Use 'owner/skill-name' format.''), fs', [])
         \<and> (\<forall>q. stat fs' q = (if prefix q skills_dir then Some IsDir else stat fs q))))"
proof (intro impI conjI allI)
  assume "\<not> blocked fs skills_dir \<and> (stat fs skills_dir = None \<or> is_dir fs skills_dir)"
  then obtain fs0 where "mkdir_p skills_dir fs = (None, fs0)"
    using mkdir_p_creates [of fs skills_dir] by blast
  then show "\<exists>msg fs' cmds. install_skill run skill_ref skills_dir fs = (Returned msg, fs', cmds)"
    by (rule install_skill_returns)
next
  fix msg fs' cmds
  assume run: "\<forall>cmd f. is_dir f skills_dir \<longrightarrow> is_dir (snd (run cmd f)) skills_dir"
    and r: "install_skill run skill_ref skills_dir fs = (Returned msg, fs', cmds)"
  from install_skill_Returned [OF r] obtain fs0 where m: "mkdir_p skills_dir fs = (None, fs0)"
    by blast
  then have d0: "is_dir fs0 skills_dir" by (rule mkdir_p_is_dir)
  show "is_dir fs' skills_dir"
  proof (cases "install_ref skill_ref")
    case None
    with m r d0 show ?thesis by (simp add: install_skill_def)
  next
    case (Some a)
    obtain url s where a: "a = (url, s)" by (cases a)
    show ?thesis
    proof (cases "path_exists fs0 (joinpath skills_dir s)")
      case True
      with Some a m r d0 show ?thesis by (simp add: install_skill_def)
    next
      case False
      with d0 have ne: "joinpath skills_dir s \<noteq> skills_dir"
        by (auto simp: is_dir_def path_exists_def)
      have "is_dir (fst (snd (fetch_skill run url s skills_dir (joinpath skills_dir s) fs0))) skills_dir"
        using run d0 ne by (rule fetch_skill_keeps_dir)
      with Some a m r False show ?thesis
        by (auto simp: install_skill_def Let_def split: prod.splits)
    qed
  qed
next
  assume "install_ref skill_ref = None \<and> \<not> blocked fs skills_dir \<and> stat fs skills_dir = None"
  then show "\<exists>fs'. install_skill run skill_ref skills_dir fs =
           (Returned (''Error: Invalid skill reference '' @ quoted skill_ref
              @ ''. Use 'owner/skill-name' format.''), fs', [])
         \<and> (\<forall>q. stat fs' q = (if prefix q skills_dir then Some IsDir else stat fs q))"
    by (simp add: install_skill_def mkdir_p_def stat_put)
qed

text \<open>
  The theorem of C10 at a target root two levels below what exists, once with the
  invalid reference \<open>foo\<close> and once with \<open>owner/foo\<close> and a clone that fails.
\<close>

theorem install_creates_root_witness:
  "install_skill (\<lambda>cmd f. (Completed 128 ''fatal: no network'', f)) ''foo''
     [''home'', ''user'', ''skills''] (Dir [(''home'', Dir [])])
   = (Returned ''Error: Invalid skill reference 'foo'. Use 'owner/skill-name' format.'',
      Dir [(''home'', Dir [(''user'', Dir [(''skills'', Dir [])])])], [])
   \<and> is_dir (Dir [(''home'', Dir [(''user'', Dir [(''skills'', Dir [])])])])
       [''home'', ''user'', ''skills'']
   \<and> is_dir (fst (snd (install_skill (\<lambda>cmd f. (Completed 128 ''fatal: no network'', f))
       ''owner/foo'' [''home'', ''user'', ''skills''] (Dir [(''home'', Dir [])]))))
       [''home'', ''user'', ''skills'']"
proof -
  let ?run = "\<lambda>cmd f. (Completed 128 ''fatal: no network'', f) :: proc \<times> node"
  let ?root = "[''home'', ''user'', ''skills'']"
  let ?fs = "Dir [(''home'', Dir [])]"
  have run: "\<forall>cmd f. is_dir f ?root \<longrightarrow> is_dir (snd (?run cmd f)) ?root" by simp
  have h: "\<not> blocked ?fs ?root \<and> (stat ?fs ?root = None \<or> is_dir ?fs ?root)"
    by (simp add: stat_def)
  have e: "install_skill ?run ''foo'' ?root ?fs
     = (Returned ''Error: Invalid skill reference 'foo'. Use 'owner/skill-name' format.'',
        Dir [(''home'', Dir [(''user'', Dir [(''skills'', Dir [])])])], [])"
    by (simp add: install_skill_def mkdir_p_def stat_def install_ref_def startswith_def quoted_def)
  from install_creates_root [of ?root ?run ?fs "''foo''"] run e
  have 1: "is_dir (Dir [(''home'', Dir [(''user'', Dir [(''skills'', Dir [])])])]) ?root"
    by blast
  from install_creates_root [of ?root ?run ?fs "''owner/foo''"] run h
  obtain msg fs' cmds where r: "install_skill ?run ''owner/foo'' ?root ?fs = (Returned msg, fs', cmds)"
    by blast
  with install_creates_root [of ?root ?run ?fs "''owner/foo''"] run
  have "is_dir fs' ?root" by blast
  with r have 2: "is_dir (fst (snd (install_skill ?run ''owner/foo'' ?root ?fs))) ?root"
    by simp
  from e 1 2 show ?thesis by simp
qed

lemma install_clone_failure:
  assumes "mkdir_p skills_dir fs = (None, fs0)"
    and "install_ref skill_ref = Some (repo_url, skill_name)"
    and "\<not> path_exists fs0 (joinpath skills_dir skill_name)"
    and "run [''git'', ''clone'', ''--depth'', ''1'', ''--filter=blob:none'', ''--sparse'',
              repo_url, str_path (joinpath skills_dir (''.tmp_'' @ skill_name))] fs0
         = (Completed returncode stderr, fs1)"
    and "returncode \<noteq> 0"
  shows "install_skill run skill_ref skills_dir fs =
     (Returned (''Error cloning repository: '' @ stderr), fs1,
      [[''git'', ''clone'', ''--depth'', ''1'', ''--filter=blob:none'', ''--sparse'',
        repo_url, str_path (joinpath skills_dir (''.tmp_'' @ skill_name))]])"
  using assms by (simp add: install_skill_def fetch_skill_def Let_def)

lemma place_skill_missing:
  assumes "\<not> path_exists fs (joinpath (joinpath temp_dir ''skills'') skill_name)"
    and "is_dir fs temp_dir" and "temp_dir \<noteq> []"
  shows "place_skill skill_name temp_dir target_dir fs =
     (''Error: Skill '' @ quoted skill_name @ '' not found in repository.'',
      remove_entry temp_dir fs)"
    and "stat (remove_entry temp_dir fs) temp_dir = None"
  using assms by (simp_all add: place_skill_def Let_def rmtree_def is_dir_def stat_remove_entry)

text \<open>
  Claim C3 fails on the code. The clone succeeds and leaves a checkout without the
  skill; \<open>git sparse-checkout\<close> then exits with code 128 and a message on its error
  stream. \<open>install_skill\<close> returns the not-found message: the captured error output of
  the checkout is not in it. (The other two parts of the claim hold: a failing clone
  is reported with its error output, \<open>install_clone_failure\<close>, and where the skill's path
  is missing the temporary clone is removed, \<open>place_skill_missing\<close>.)
\<close>

theorem install_checkout_failure_hidden:
  "install_skill
     (\<lambda>cmd f. if take 2 cmd = [''git'', ''clone'']
        then (Completed 0 [], put [''skills'', ''.tmp_foo''] (Dir [(''README.md'', File ''readme'')]) f)
        else (Completed 128 ''fatal: this operation must be run in a work tree'', f))
     ''owner/foo'' [''skills''] (Dir [(''skills'', Dir [])])
   = (Returned ''Error: Skill 'foo' not found in repository.'',
      Dir [(''skills'', Dir [])],
      [[''git'', ''clone'', ''--depth'', ''1'', ''--filter=blob:none'', ''--sparse'',
        ''https://github.com/owner/skills'', ''/skills/.tmp_foo''],
       [''git'', ''-C'', ''/skills/.tmp_foo'', ''sparse-checkout'', ''set'', ''skills/foo'']])"
  by (simp add: install_skill_def mkdir_p_def stat_def install_ref_def startswith_def
      split_first_def joinpath_def parts_def path_exists_def fetch_skill_def str_path_def
      place_skill_def rmtree_def quoted_def Let_def)

subsection \<open>The language of the name pattern\<close>

lemma not_lower_or_digit [simp]:
  "\<not> lower_or_digit (CHR ''-'')" "\<not> lower_or_digit (CHR 0x0A)"
  by (simp_all add: lower_or_digit_def)

lemma split_on_Cons:
  "split_on c (x # xs) =
     (if x = c then [] # split_on c xs
      else (x # hd (split_on c xs)) # tl (split_on c xs))"
  using split_on_nonempty [of c xs] by (cases "split_on c xs") auto

lemma name_match_segments:
  "CHR 0x0A \<notin> set t \<Longrightarrow>
   (name_match False t \<longleftrightarrow>
      list_all (\<lambda>g. g \<noteq> [] \<and> list_all lower_or_digit g) (split_on (CHR ''-'') t))
   \<and> (name_match True t \<longleftrightarrow>
      list_all lower_or_digit (hd (split_on (CHR ''-'') t)) \<and>
      list_all (\<lambda>g. g \<noteq> [] \<and> list_all lower_or_digit g) (tl (split_on (CHR ''-'') t)))"
proof (induction t)
  case Nil
  show ?case by simp
next
  case (Cons c t)
  then show ?case
    by (simp only: split_on_Cons name_match.simps) auto
qed

lemma name_match_newline:
  "name_match b s \<longleftrightarrow>
     (\<exists>t. (s = t \<or> s = t @ [CHR 0x0A]) \<and> CHR 0x0A \<notin> set t \<and> name_match b t)"
proof (induction s arbitrary: b)
  case Nil
  show ?case by auto
next
  case (Cons c s)
  show ?case
  proof (cases "c = CHR 0x0A")
    case True
    have "(\<exists>t. (c # s = t \<or> c # s = t @ [CHR 0x0A]) \<and> CHR 0x0A \<notin> set t \<and> name_match b t)
        \<longleftrightarrow> (s = [] \<and> b)"
    proof
      assume "\<exists>t. (c # s = t \<or> c # s = t @ [CHR 0x0A]) \<and> CHR 0x0A \<notin> set t \<and> name_match b t"
      then obtain t where t: "c # s = t \<or> c # s = t @ [CHR 0x0A]" "CHR 0x0A \<notin> set t"
        "name_match b t" by blast
      with True have "t = []" by (cases t) auto
      with t show "s = [] \<and> b" by auto
    next
      assume "s = [] \<and> b"
      with True show "\<exists>t. (c # s = t \<or> c # s = t @ [CHR 0x0A]) \<and> CHR 0x0A \<notin> set t \<and> name_match b t"
        by (intro exI [of _ "[]"]) auto
    qed
    with True show ?thesis by auto
  next
    case False
    have shape: "(\<exists>t. (c # s = t \<or> c # s = t @ [CHR 0x0A]) \<and> CHR 0x0A \<notin> set t \<and> name_match b t)
        \<longleftrightarrow> (\<exists>t'. (s = t' \<or> s = t' @ [CHR 0x0A]) \<and> CHR 0x0A \<notin> set t' \<and> name_match b (c # t'))"
      (is "?L \<longleftrightarrow> ?R")
    proof
      assume ?L
      then obtain t where t: "c # s = t \<or> c # s = t @ [CHR 0x0A]" "CHR 0x0A \<notin> set t"
        "name_match b t" by blast
      with False obtain t' where "t = c # t'" by (cases t) auto
      with t show ?R by (intro exI [of _ t']) auto
    next
      assume ?R
      then obtain t' where "s = t' \<or> s = t' @ [CHR 0x0A]" "CHR 0x0A \<notin> set t'"
        "name_match b (c # t')" by blast
      with False show ?L by (intro exI [of _ "c # t'"]) auto
    qed
    show ?thesis
      unfolding shape using False Cons.IH [of True] Cons.IH [of False]
      by (cases "lower_or_digit c"; cases "c = CHR ''-''"; cases b) auto
  qed
qed

lemma set_split_on: "set t \<subseteq> insert c (\<Union> (set ` set (split_on c t)))"
proof (induction t)
  case Nil
  show ?case by simp
next
  case (Cons x t)
  then show ?case
    using split_on_nonempty [of c t]
    by (cases "split_on c t") (auto simp: split_on_Cons)
qed

lemma segments_no_newline:
  assumes "list_all (\<lambda>g. g \<noteq> [] \<and> list_all lower_or_digit g) (split_on (CHR ''-'') t)"
  shows "CHR 0x0A \<notin> set t"
proof
  assume "CHR 0x0A \<in> set t"
  with set_split_on [of t "CHR ''-''"] obtain g where
    "g \<in> set (split_on (CHR ''-'') t)" "CHR 0x0A \<in> set g" by auto
  moreover from assms have "\<forall>g \<in> set (split_on (CHR ''-'') t). \<forall>x \<in> set g. lower_or_digit x"
    by (simp add: list_all_iff)
  ultimately have "lower_or_digit (CHR 0x0A)" by blast
  then show False by simp
qed

text \<open>
  \<open>name_re\<close> accepts the language of \<open>^[a-z0-9]+(-[a-z0-9]+)*$\<close> as \<open>re.match\<close> reads it:
  the texts that split at hyphens into non-empty pieces of lower-case letters and
  digits, and those texts followed by one line feed.
\<close>

lemma name_re_iff:
  "name_re s \<longleftrightarrow>
     (\<exists>t. (s = t \<or> s = t @ [CHR 0x0A]) \<and>
        list_all (\<lambda>g. g \<noteq> [] \<and> list_all lower_or_digit g) (split_on (CHR ''-'') t))"
proof -
  have "name_re s \<longleftrightarrow>
     (\<exists>t. (s = t \<or> s = t @ [CHR 0x0A]) \<and> CHR 0x0A \<notin> set t \<and> name_match False t)"
    unfolding name_re_def by (rule name_match_newline)
  also have "\<dots> \<longleftrightarrow> (\<exists>t. (s = t \<or> s = t @ [CHR 0x0A]) \<and> CHR 0x0A \<notin> set t \<and>
        list_all (\<lambda>g. g \<noteq> [] \<and> list_all lower_or_digit g) (split_on (CHR ''-'') t))"
    using name_match_segments by blast
  also have "\<dots> \<longleftrightarrow> (\<exists>t. (s = t \<or> s = t @ [CHR 0x0A]) \<and>
        list_all (\<lambda>g. g \<noteq> [] \<and> list_all lower_or_digit g) (split_on (CHR ''-'') t))"
    using segments_no_newline by blast
  finally show ?thesis .
qed

end
